theory Spec2Isabelle
  imports Complex_Main "HOL-Library.Log_Nat" "HOL-Library.Sublist"
begin

section \<open>Python numbers\<close>

text \<open>
  \<^verbatim>\<open>run.py\<close> computes its scale factors and its audio/video delay with Python floats,
  that is IEEE-754 binary64 numbers.  A finite double is a rational number, so the model
  keeps doubles as values of type \<^typ>\<open>rat\<close> and rounds the exact result of every
  arithmetic operation to the nearest double, ties to the even mantissa, as the hardware
  does.  The rounding below is the one of the normal range (53 significant bits); the
  quantities of the program (pixel sizes below \<open>2\<^sup>3\<^sup>1\<close>, timestamps in seconds) never leave it.
\<close>

definition ilog2 :: "rat \<Rightarrow> int" where
  \<comment> \<open>for \<open>0 < x\<close>: the exponent \<open>e\<close> with \<open>2\<^sup>e \<le> x < 2\<^sup>e\<^sup>+\<^sup>1\<close>\<close>
  "ilog2 x = (let (p, q) = quotient_of x; e0 = bitlen p - bitlen q
              in if 2 powi e0 \<le> x then e0 else e0 - 1)"

definition round_half_even :: "rat \<Rightarrow> int" where
  "round_half_even x = (let f = \<lfloor>x\<rfloor>; r = x - of_int f
     in if r < 1 / 2 then f else if 1 / 2 < r then f + 1 else if even f then f else f + 1)"

definition fl :: "rat \<Rightarrow> rat" where
  \<comment> \<open>the double nearest to \<open>x\<close>\<close>
  "fl x = (if x = 0 then 0 else
     let e = ilog2 \<bar>x\<bar>; ulp = 2 powi (e - 52)
     in of_int (round_half_even (x / ulp)) * ulp)"

datatype py_error =
    ZeroDivisionError | ValueError | TypeError | UnicodeDecodeError | UnboundLocalError

definition true_div :: "int \<Rightarrow> int \<Rightarrow> py_error + rat" where
  \<comment> \<open>\<^verbatim>\<open>a / b\<close> on two Python ints: the correctly rounded quotient\<close>
  "true_div a b = (if b = 0 then Inl ZeroDivisionError else Inr (fl (of_int a / of_int b)))"

definition int_times_float :: "int \<Rightarrow> rat \<Rightarrow> rat" where
  \<comment> \<open>\<^verbatim>\<open>n * x\<close> for an int \<open>n\<close> (converted exactly) and a float \<open>x\<close>\<close>
  "int_times_float n x = fl (of_int n * x)"

definition py_int :: "rat \<Rightarrow> int" where
  \<comment> \<open>\<^verbatim>\<open>int(x)\<close> on a float: truncation towards zero\<close>
  "py_int x = (if 0 \<le> x then \<lfloor>x\<rfloor> else \<lceil>x\<rceil>)"

section \<open>Scaling of images and video frames\<close>

text \<open>
  \<^verbatim>\<open>display_image\<close> (lines 299--337) and \<^verbatim>\<open>update_frame\<close> (lines 390--405) each
  compute the size at which the source is shown.  Both first take the geometry of the
  primary screen and fall back to the size of the label when it is not positive.
\<close>

type_synonym size = "int \<times> int"

definition effective_screen :: "size \<Rightarrow> size \<Rightarrow> size" where
  "effective_screen screen_geometry label_size =
     (if fst screen_geometry \<le> 0 \<or> snd screen_geometry \<le> 0 then label_size
      else screen_geometry)"

definition display_image_scale :: "bool \<Rightarrow> size \<Rightarrow> size \<Rightarrow> py_error + rat" where
  "display_image_scale is_background screen img =
     (case true_div (fst screen) (fst img) of
        Inl e \<Rightarrow> Inl e
      | Inr a \<Rightarrow>
         (case true_div (snd screen) (snd img) of
            Inl e \<Rightarrow> Inl e
          | Inr b \<Rightarrow> Inr (if is_background then max a b else min a b)))"

definition display_image_size :: "bool \<Rightarrow> size \<Rightarrow> size \<Rightarrow> py_error + size" where
  "display_image_size is_background screen img =
     (case display_image_scale is_background screen img of
        Inl e \<Rightarrow> Inl e
      | Inr scale \<Rightarrow>
          Inr (py_int (int_times_float (fst img) scale),
               py_int (int_times_float (snd img) scale)))"

type_synonym box = "int \<times> int \<times> int \<times> int"

definition display_image_crop :: "bool \<Rightarrow> size \<Rightarrow> size \<Rightarrow> box option" where
  \<comment> \<open>lines 331--336: the box \<open>(left, top, right, bottom)\<close> handed to \<^verbatim>\<open>crop\<close>\<close>
  "display_image_crop is_background screen new =
     (if is_background \<and> (fst new > fst screen \<or> snd new > snd screen) then
        (let left = (fst new - fst screen) div 2;
             top = (snd new - snd screen) div 2
         in Some (left, top, left + fst screen, top + snd screen))
      else None)"

definition update_frame_size :: "size \<Rightarrow> size \<Rightarrow> py_error + size" where
  \<comment> \<open>lines 403--405, for a frame of \<open>width \<times> height\<close>\<close>
  "update_frame_size screen frame =
     (case true_div (fst screen) (fst frame) of
        Inl e \<Rightarrow> Inl e
      | Inr a \<Rightarrow>
         (case true_div (snd screen) (snd frame) of
            Inl e \<Rightarrow> Inl e
          | Inr b \<Rightarrow>
             (let scale = min a b
              in Inr (py_int (int_times_float (fst frame) scale),
                      py_int (int_times_float (snd frame) scale)))))"

text \<open>
  The scaling function as the specification words it, for comparison: exact division,
  and the product rounded to the nearest integer.
\<close>

definition spec_fit_size :: "bool \<Rightarrow> size \<Rightarrow> size \<Rightarrow> size" where
  "spec_fit_size fill screen img =
     (let sx = of_int (fst screen) / of_int (fst img) :: rat;
          sy = of_int (snd screen) / of_int (snd img) :: rat;
          scale = (if fill then max sx sy else min sx sy)
      in (round (of_int (fst img) * scale), round (of_int (snd img) * scale)))"

section \<open>The frame producer: \<^verbatim>\<open>VideoThread.run\<close>\<close>

text \<open>
  The loop of \<^verbatim>\<open>run\<close> (lines 58--121) reads, in every iteration, the stop flag, the
  wall clock, the decoder (\<^verbatim>\<open>get_frame\<close>) and the audio clock (\<^verbatim>\<open>get_pts\<close>).  The model
  takes what these reads return as its input, one record per iteration, and computes
  what the thread does: the sleeps and the signals it emits, in order.  A list of
  iterations that ends before the loop does describes a thread that is still running.
\<close>

datatype frame = Frame (frame_no: nat) (frame_size: size)

datatype image = Image (converted: "frame option")
  \<comment> \<open>a decoded picture; \<open>converted\<close> is the array that lines 92--94 build from it, \<open>None\<close>
     when they raise\<close>

datatype val = EofVal | PausedVal | OtherVal

datatype poll = GetFrameRaises | Got "(image option \<times> rat) option" val
  \<comment> \<open>\<^verbatim>\<open>frame_data, val = self.player.get_frame()\<close>, \<open>frame_data\<close> being \<open>(img, pts)\<close> or \<open>None\<close>\<close>

record iteration =
  running :: bool          \<comment> \<open>\<^verbatim>\<open>self.running\<close> at the head of the loop\<close>
  elapsed :: rat           \<comment> \<open>\<^verbatim>\<open>time.time() - start_time\<close>, read when a duration is set\<close>
  polled :: poll
  audio_clock :: "rat option"  \<comment> \<open>\<^verbatim>\<open>self.player.get_pts()\<close>, \<open>None\<close> when it raises\<close>

datatype action = Sleep rat | FrameReady frame | PlaybackFinished "frame option"
  \<comment> \<open>\<^verbatim>\<open>time.sleep\<close>, \<^verbatim>\<open>frame_ready.emit\<close>, \<^verbatim>\<open>playback_finished.emit\<close> (\<open>None\<close>: the empty array)\<close>

datatype sync = SleepFor rat | Continue | Proceed

definition av_sync :: "rat \<Rightarrow> rat \<Rightarrow> sync" where
  \<comment> \<open>lines 106--119\<close>
  "av_sync pts audio_pts =
     (if 0 < audio_pts \<and> 0 < pts then
        (let delay = fl (pts - audio_pts)
         in if fl (1 / 1000) < delay then SleepFor (min delay (fl (1 / 10)))
            else if delay < - fl (5 / 100) then Continue
            else Proceed)
      else SleepFor (fl (1 / 1000)))"

fun sync_actions :: "sync \<Rightarrow> action list" where
  "sync_actions (SleepFor t) = [Sleep t]"
| "sync_actions Continue = []"
| "sync_actions Proceed = []"

fun run_loop :: "int \<Rightarrow> frame option \<Rightarrow> iteration list \<Rightarrow> action list" where
  "run_loop duration last_frame [] = []"
| "run_loop duration last_frame (it # its) =
     (if \<not> running it then [PlaybackFinished last_frame]
      else if 0 < duration \<and> of_int duration \<le> elapsed it then [PlaybackFinished last_frame]
      else
        (case polled it of
           GetFrameRaises \<Rightarrow> [PlaybackFinished last_frame]
         | Got frame_data v \<Rightarrow>
            (if v = EofVal then [PlaybackFinished last_frame]
             else if v = PausedVal then Sleep (fl (1 / 100)) # run_loop duration last_frame its
             else
               (case frame_data of
                  None \<Rightarrow> Sleep (fl (2 / 1000)) # run_loop duration last_frame its
                | Some (None, pts) \<Rightarrow> run_loop duration last_frame its
                | Some (Some img, pts) \<Rightarrow>
                   (case audio_clock it of
                      None \<Rightarrow> [PlaybackFinished last_frame]
                    | Some audio_pts \<Rightarrow>
                       (case converted img of
                          None \<Rightarrow> run_loop duration last_frame its
                        | Some frame_rgb \<Rightarrow>
                            FrameReady frame_rgb # sync_actions (av_sync pts audio_pts)
                              @ run_loop duration (Some frame_rgb) its))))))"

text \<open>
  \<^verbatim>\<open>run\<close> as a whole (lines 36--143).  \<open>opens\<close> says whether \<^verbatim>\<open>MediaPlayer(...)\<close> at line 45
  returns rather than raises.  When it raises, the handler of line 125 prints the error
  and the \<^verbatim>\<open>finally\<close> block reads \<^verbatim>\<open>last_frame\<close>, which line 48 has not bound yet: the
  block raises \<^verbatim>\<open>UnboundLocalError\<close>, which leaves \<^verbatim>\<open>run\<close>, and \<^verbatim>\<open>playback_finished\<close> is not
  emitted.
\<close>

definition run :: "bool \<Rightarrow> int \<Rightarrow> iteration list \<Rightarrow> py_error + action list" where
  "run opens duration its =
     (if opens then Inr (run_loop duration None its) else Inl UnboundLocalError)"

text \<open>What one iteration decodes and converts, and whether the loop goes on after it.\<close>

definition decoded :: "iteration \<Rightarrow> (frame \<times> rat \<times> rat) option" where
  "decoded it =
     (case polled it of
        Got (Some (Some img, pts)) OtherVal \<Rightarrow>
          (case (audio_clock it, converted img) of
             (Some audio_pts, Some frame_rgb) \<Rightarrow> Some (frame_rgb, pts, audio_pts)
           | _ \<Rightarrow> None)
      | _ \<Rightarrow> None)"

definition continues :: "int \<Rightarrow> iteration \<Rightarrow> bool" where
  "continues duration it =
     (running it \<and> \<not> (0 < duration \<and> of_int duration \<le> elapsed it) \<and>
      (case polled it of
         GetFrameRaises \<Rightarrow> False
       | Got frame_data v \<Rightarrow>
           v \<noteq> EofVal \<and>
           (v = PausedVal \<or>
            (case frame_data of
               Some (Some img, pts) \<Rightarrow> audio_clock it \<noteq> None
             | _ \<Rightarrow> True))))"

definition emitted :: "action list \<Rightarrow> frame list" where
  "emitted as = List.map_filter (\<lambda>a. case a of FrameReady f \<Rightarrow> Some f | _ \<Rightarrow> None) as"

definition sleeps :: "action list \<Rightarrow> rat list" where
  "sleeps as = List.map_filter (\<lambda>a. case a of Sleep t \<Rightarrow> Some t | _ \<Rightarrow> None) as"

definition decoded_frame :: "iteration \<Rightarrow> frame option" where
  "decoded_frame it = map_option fst (decoded it)"

definition stream :: "(nat \<times> rat) list \<Rightarrow> rat \<Rightarrow> iteration list" where
  \<comment> \<open>a synthetic run: frame \<open>n\<close> with timestamp \<open>pts\<close> per iteration, the audio clock fixed\<close>
  "stream frames audio_pts =
     map (\<lambda>(n, pts). \<lparr>running = True, elapsed = 0,
            polled = Got (Some (Some (Image (Some (Frame n (640, 480)))), pts)) OtherVal,
            audio_clock = Some audio_pts\<rparr>) frames"

definition end_of_file :: iteration where
  "end_of_file = \<lparr>running = True, elapsed = 0, polled = Got None EofVal, audio_clock = None\<rparr>"

definition idle_actions :: "iteration \<Rightarrow> action list" where
  \<comment> \<open>what an iteration that emits nothing and does not end the loop does\<close>
  "idle_actions it =
     (case polled it of
        Got frame_data v \<Rightarrow>
          (if v = PausedVal then [Sleep (fl (1 / 100))]
           else if frame_data = None then [Sleep (fl (2 / 1000))] else [])
      | GetFrameRaises \<Rightarrow> [])"


section \<open>The command channel: \<^verbatim>\<open>IPCServerThread.run\<close>\<close>

text \<open>
  What \<^verbatim>\<open>json.loads\<close> returns: the values of JSON.
\<close>

datatype json =
    JNull | JBool bool | JInt int | JFloat rat | JString string
  | JArray "json list" | JObject "(string \<times> json) list"

fun truthy :: "json \<Rightarrow> bool" where
  "truthy JNull = False"
| "truthy (JBool b) = b"
| "truthy (JInt i) = (i \<noteq> 0)"
| "truthy (JFloat x) = (x \<noteq> 0)"
| "truthy (JString s) = (s \<noteq> [])"
| "truthy (JArray xs) = (xs \<noteq> [])"
| "truthy (JObject kvs) = (kvs \<noteq> [])"

text \<open>
  One accepted connection (lines 181--196).  The bytes received and the two library
  calls made on them are the input: \<open>payload\<close> is \<^verbatim>\<open>recv(4096).decode('utf-8')\<close>, \<open>None\<close>
  when the bytes are not UTF-8 and \<^verbatim>\<open>decode\<close> raises; \<open>parsed\<close> is \<^verbatim>\<open>json.loads\<close> of that
  text, \<open>None\<close> when it raises \<^verbatim>\<open>JSONDecodeError\<close>.  The signal \<^verbatim>\<open>command_received\<close> is
  declared for a \<^verbatim>\<open>dict\<close>; emitting any other value raises \<^verbatim>\<open>TypeError\<close>.  An exception
  other than \<^verbatim>\<open>JSONDecodeError\<close> leaves the body of the loop through the handler of line
  199, past \<^verbatim>\<open>client_socket.close()\<close>.
\<close>

record connection =
  payload :: "string option"
  parsed :: "json option"

record served =
  reply :: "string option"                        \<comment> \<open>the bytes sent back, if any\<close>
  socket_closed :: bool                           \<comment> \<open>whether line 196 was reached\<close>
  dispatched :: "(string \<times> json) list option"     \<comment> \<open>the command emitted, if any\<close>

definition serve_connection :: "connection \<Rightarrow> served" where
  "serve_connection c =
     (case payload c of
        None \<Rightarrow> \<lparr>reply = None, socket_closed = False, dispatched = None\<rparr>
      | Some data \<Rightarrow>
          if data \<noteq> [] then
            (case parsed c of
               None \<Rightarrow> \<lparr>reply = Some ''ERROR'', socket_closed = True, dispatched = None\<rparr>
             | Some (JObject command) \<Rightarrow>
                 \<lparr>reply = Some ''OK'', socket_closed = True, dispatched = Some command\<rparr>
             | Some _ \<Rightarrow> \<lparr>reply = None, socket_closed = False, dispatched = None\<rparr>)
          else \<lparr>reply = None, socket_closed = True, dispatched = None\<rparr>)"

section \<open>The playback controller: \<^verbatim>\<open>AdPlayerWindow\<close>\<close>

text \<open>
  The window lives in the thread of the event loop; every method below runs there, one
  at a time, as the handler of one event.  The state is the fields of the object
  (lines 220--257) together with the part of the toolkit the handlers read and write:
  the opacity effect, the fade animation (a single \<^verbatim>\<open>QPropertyAnimation\<close> of 150 ms with
  the easing curve \<^verbatim>\<open>InOutQuad\<close>), the media timer and the pixmap of the label.  \<open>alive\<close>
  lists the \<^verbatim>\<open>VideoThread\<close>s whose \<^verbatim>\<open>run\<close> has been started and has not returned, that is
  the threads for which \<^verbatim>\<open>isRunning()\<close> holds; \<open>video_thread\<close> is the one the window refers
  to.  \<open>trace\<close> records, in order, what the window printed and what it asked of the
  toolkit.
\<close>

datatype message =
    FileNotFoundMsg string
  | PlayingMsg string int
  | StoppingMsg
  | ImageSizeMsg size size size bool
  | BackgroundCroppedMsg size
  | ErrorDisplayingImageMsg string
  | VideoSizeMsg size size size
  | ErrorUpdatingFrameMsg
  | VideoFinishedMsg

datatype pixmap = ImagePixmap string size | FramePixmap frame size

datatype effect =
    Print message
  | SetPixmap pixmap
  | StartThread nat string int     \<comment> \<open>\<^verbatim>\<open>VideoThread(video_path, duration).start()\<close>\<close>
  | StopThread nat                 \<comment> \<open>\<^verbatim>\<open>stop()\<close> and \<^verbatim>\<open>wait()\<close>\<close>
  | FadeOut
  | FadeIn

datatype pending =
    is_play: PendingPlay (pending_file: string) (pending_duration: int) (pending_is_image: bool)
  | PendingBackground
  \<comment> \<open>\<^verbatim>\<open>{'type': 'play', 'file', 'duration', 'is_image'}\<close> and \<^verbatim>\<open>{'type': 'background'}\<close>\<close>

record env =
  path_exists :: "string \<Rightarrow> bool"               \<comment> \<open>\<^verbatim>\<open>os.path.exists\<close>\<close>
  image_open :: "string \<Rightarrow> size option"
    \<comment> \<open>\<^verbatim>\<open>Image.open\<close> and \<^verbatim>\<open>convert\<close>: the size of the picture, \<open>None\<close> when they raise\<close>
  suffix_lower :: "string \<Rightarrow> string"            \<comment> \<open>\<^verbatim>\<open>Path(filepath).suffix.lower()\<close>\<close>
  screen_geometry :: size
  label_size :: size

record window =
  background_image :: "string option"
  current_file :: "string option"
  video_thread :: "nat option"
  is_transitioning :: bool
  pending_command :: "pending option"
  opacity :: rat
  anim_running :: bool
  anim_start :: rat
  anim_end :: rat
  anim_time :: nat                                \<comment> \<open>milliseconds, below 150 while running\<close>
  media_timer :: "int option"                     \<comment> \<open>the interval in ms while active\<close>
  pixmap :: "pixmap option"
  cached_video_size :: "size option"
  cached_display_size :: "size option"
  alive :: "nat list"
  next_thread :: nat
  startup_timer :: bool                           \<comment> \<open>the single shot of line 266 is pending\<close>
  closed :: bool
  trace :: "effect list"

definition emit :: "effect \<Rightarrow> window \<Rightarrow> window" where
  "emit e s = s\<lparr>trace := trace s @ [e]\<rparr>"

subsection \<open>The fade animation\<close>

text \<open>
  \<^verbatim>\<open>easeInOutQuad\<close> of the toolkit.  The animation interpolates between its start and end
  value; it writes the opacity only while it is running; changing a key value of a
  running animation recomputes the current value at once; \<^verbatim>\<open>start()\<close> does nothing on a
  running animation and otherwise rewinds to time 0.  The program reads the opacity only
  through the test \<^verbatim>\<open>opacity() > 0\<close>; the model computes it exactly.
\<close>

definition ease_in_out_quad :: "rat \<Rightarrow> rat" where
  "ease_in_out_quad t =
     (let u = 2 * t in if u < 1 then u * u / 2 else - (1 / 2) * ((u - 1) * ((u - 1) - 2) - 1))"

definition interpolate :: "rat \<Rightarrow> rat \<Rightarrow> nat \<Rightarrow> rat" where
  \<comment> \<open>the value between \<open>a\<close> and \<open>b\<close> after \<open>t\<close> of the 150 ms, bounded as \<^verbatim>\<open>setOpacity\<close> does\<close>
  "interpolate a b t = max 0 (min 1 (a + (b - a) * ease_in_out_quad (of_nat t / 150)))"

definition write_opacity :: "window \<Rightarrow> window" where
  "write_opacity s =
     (if anim_running s
      then s\<lparr>opacity := interpolate (anim_start s) (anim_end s) (anim_time s)\<rparr>
      else s)"

definition setStartValue :: "rat \<Rightarrow> window \<Rightarrow> window" where
  "setStartValue v s = write_opacity (s\<lparr>anim_start := v\<rparr>)"

definition setEndValue :: "rat \<Rightarrow> window \<Rightarrow> window" where
  "setEndValue v s = write_opacity (s\<lparr>anim_end := v\<rparr>)"

definition animation_start :: "window \<Rightarrow> window" where
  "animation_start s =
     (if anim_running s then s
      else write_opacity (s\<lparr>anim_running := True, anim_time := 0\<rparr>))"

definition animation_tick :: "nat \<Rightarrow> window \<Rightarrow> window" where
  \<comment> \<open>the animation timer moves the current time to \<open>t\<close> ms, short of the end\<close>
  "animation_tick t s = write_opacity (s\<lparr>anim_time := t\<rparr>)"

definition animation_end :: "window \<Rightarrow> window" where
  \<comment> \<open>the current time reaches 150 ms: the end value is written, the animation stops\<close>
  "animation_end s = (write_opacity (s\<lparr>anim_time := 150\<rparr>))\<lparr>anim_running := False\<rparr>"

subsection \<open>The methods\<close>

definition stop_video_thread :: "window \<Rightarrow> window" where
  \<comment> \<open>\<^verbatim>\<open>if self.video_thread and self.video_thread.isRunning(): stop(); wait()\<close>\<close>
  "stop_video_thread s =
     (case video_thread s of
        None \<Rightarrow> s
      | Some t \<Rightarrow>
          if t \<in> set (alive s) then emit (StopThread t) (s\<lparr>alive := removeAll t (alive s)\<rparr>)
          else s)"

definition fade_in :: "window \<Rightarrow> window" where
  "fade_in s = animation_start (setEndValue 1 (setStartValue 0 (emit FadeIn s)))"

definition fade_out :: "window \<Rightarrow> window" where
  "fade_out s =
     (if is_transitioning s then s
      else animation_start (setEndValue 0 (setStartValue 1
             (stop_video_thread (emit FadeOut (s\<lparr>is_transitioning := True\<rparr>))))))"

definition display_image :: "env \<Rightarrow> string \<Rightarrow> int \<Rightarrow> bool \<Rightarrow> window \<Rightarrow> window" where
  "display_image e image_path duration is_background s =
     (case image_open e image_path of
        None \<Rightarrow> emit (Print (ErrorDisplayingImageMsg image_path)) s
      | Some img \<Rightarrow>
         (let screen = effective_screen (screen_geometry e) (label_size e) in
          case display_image_size is_background screen img of
            Inl err \<Rightarrow> emit (Print (ErrorDisplayingImageMsg image_path)) s
          | Inr new \<Rightarrow>
             (let s1 = emit (Print (ImageSizeMsg img new screen is_background)) s in
              if fst new < 1 \<or> snd new < 1
              then emit (Print (ErrorDisplayingImageMsg image_path)) s1
              else
                (let cropped = (display_image_crop is_background screen new \<noteq> None);
                     s2 = (if cropped then emit (Print (BackgroundCroppedMsg screen)) s1 else s1);
                     pm = ImagePixmap image_path (if cropped then screen else new);
                     s3 = emit (SetPixmap pm) (s2\<lparr>pixmap := Some pm\<rparr>)
                 in if 0 < duration then s3\<lparr>media_timer := Some (duration * 1000)\<rparr>
                    else s3))))"

definition display_video :: "string \<Rightarrow> int \<Rightarrow> window \<Rightarrow> window" where
  "display_video video_path duration s =
     (let s1 = stop_video_thread s;
          s2 = s1\<lparr>cached_video_size := None, cached_display_size := None\<rparr>;
          t = next_thread s2
      in emit (StartThread t video_path duration)
           (s2\<lparr>video_thread := Some t, alive := alive s2 @ [t], next_thread := Suc t\<rparr>))"

definition update_frame :: "env \<Rightarrow> frame \<Rightarrow> window \<Rightarrow> window" where
  "update_frame e frame s =
     (let key = frame_size frame;
          screen = effective_screen (screen_geometry e) (label_size e);
          looked =
            (if cached_video_size s \<noteq> Some key then
               (case update_frame_size screen key of
                  Inl err \<Rightarrow> (s, None)
                | Inr new \<Rightarrow>
                    (emit (Print (VideoSizeMsg key new screen))
                       (s\<lparr>cached_video_size := Some key, cached_display_size := Some new\<rparr>),
                     Some new))
             else (s, cached_display_size s))
      in case looked of
           (s1, None) \<Rightarrow> emit (Print ErrorUpdatingFrameMsg) s1
         | (s1, Some new) \<Rightarrow>
             if fst new < 1 \<or> snd new < 1 then emit (Print ErrorUpdatingFrameMsg) s1
             else emit (SetPixmap (FramePixmap frame new))
                    (s1\<lparr>pixmap := Some (FramePixmap frame new)\<rparr>))"

definition image_suffixes :: "string list" where
  "image_suffixes = [''.jpg'', ''.jpeg'', ''.png'', ''.bmp'', ''.gif'', ''.webp'']"

definition play_media :: "env \<Rightarrow> string \<Rightarrow> int \<Rightarrow> window \<Rightarrow> window" where
  "play_media e filepath duration s =
     (if \<not> path_exists e filepath then emit (Print (FileNotFoundMsg filepath)) s
      else
        (let s1 = emit (Print (PlayingMsg filepath duration)) s;
             s2 = s1\<lparr>media_timer := None\<rparr>;
             is_image = (suffix_lower e filepath \<in> set image_suffixes);
             s3 = s2\<lparr>current_file := Some filepath\<rparr>
         in if 0 < opacity s3
            then fade_out (s3\<lparr>pending_command := Some (PendingPlay filepath duration is_image)\<rparr>)
            else fade_in (if is_image then display_image e filepath duration False s3
                          else display_video filepath duration s3)))"

definition has_background :: "env \<Rightarrow> window \<Rightarrow> bool" where
  \<comment> \<open>\<^verbatim>\<open>self.background_image and os.path.exists(self.background_image)\<close>\<close>
  "has_background e s =
     (case background_image s of None \<Rightarrow> False | Some b \<Rightarrow> b \<noteq> [] \<and> path_exists e b)"

definition stop_playback :: "env \<Rightarrow> bool \<Rightarrow> window \<Rightarrow> window" where
  "stop_playback e return_to_background s =
     (let s1 = emit (Print StoppingMsg) s;
          s2 = s1\<lparr>media_timer := None\<rparr>;
          s3 = stop_video_thread s2
      in if return_to_background \<and> has_background e s3
         then fade_out (s3\<lparr>pending_command := Some PendingBackground\<rparr>)
         else s3)"

definition on_media_timeout :: "window \<Rightarrow> window" where
  "on_media_timeout s = s\<lparr>media_timer := None\<rparr>"

definition on_video_finished :: "env \<Rightarrow> frame option \<Rightarrow> window \<Rightarrow> window" where
  \<comment> \<open>\<open>None\<close> is the empty array; \<^verbatim>\<open>size\<close> is the number of elements of the array\<close>
  "on_video_finished e last_frame s =
     (case last_frame of
        None \<Rightarrow> s
      | Some f \<Rightarrow>
          if 0 < fst (frame_size f) * snd (frame_size f) * 3
          then emit (Print VideoFinishedMsg) (update_frame e f s)
          else s)"

definition on_fade_finished :: "env \<Rightarrow> window \<Rightarrow> window" where
  "on_fade_finished e s =
     (let s' =
        (case pending_command s of
           None \<Rightarrow> s
         | Some cmd \<Rightarrow>
            (let s1 = s\<lparr>pending_command := None\<rparr> in
             if is_play cmd then
               fade_in (if pending_is_image cmd
                        then display_image e (pending_file cmd) (pending_duration cmd) False s1
                        else display_video (pending_file cmd) (pending_duration cmd) s1)
             else
               fade_in (case background_image s1 of
                          Some b \<Rightarrow> display_image e b 0 True s1
                        | None \<Rightarrow> emit (Print (ErrorDisplayingImageMsg [])) s1)))
      in s'\<lparr>is_transitioning := False\<rparr>)"

definition display_initial_background :: "env \<Rightarrow> window \<Rightarrow> window" where
  "display_initial_background e s =
     (case background_image s of
        None \<Rightarrow> s
      | Some b \<Rightarrow> if b \<noteq> [] \<and> path_exists e b then display_image e b 0 True s else s)"

definition closeEvent :: "window \<Rightarrow> window" where
  "closeEvent s = (stop_video_thread s)\<lparr>closed := True\<rparr>"

text \<open>
  \<^verbatim>\<open>handle_ipc_command\<close> (lines 273--287) on the dictionary of a command.  The protocol
  gives \<^verbatim>\<open>file\<close> a string and \<^verbatim>\<open>duration\<close> an integer; a \<^verbatim>\<open>PLAY\<close> whose \<^verbatim>\<open>file\<close> is truthy
  but no string, or whose \<^verbatim>\<open>duration\<close> is no integer, is outside the model (\<open>None\<close>).
\<close>

definition handle_ipc_command :: "env \<Rightarrow> (string \<times> json) list \<Rightarrow> window \<Rightarrow> window option" where
  "handle_ipc_command e command s =
     (let cmd_type = map_of command ''command'' in
      if cmd_type = Some (JString ''PLAY'') then
        (let filepath = map_of command ''file'';
             duration = (case map_of command ''duration'' of None \<Rightarrow> JInt 0 | Some d \<Rightarrow> d)
         in case filepath of
              None \<Rightarrow> Some s
            | Some fp \<Rightarrow>
                if truthy fp then
                  (case (fp, duration) of
                     (JString f, JInt d) \<Rightarrow> Some (play_media e f d s)
                   | _ \<Rightarrow> None)
                else Some s)
      else if cmd_type = Some (JString ''STOP'') then Some (stop_playback e True s)
      else if cmd_type = Some (JString ''EXIT'') then Some (closeEvent s)
      else Some s)"

subsection \<open>Events\<close>

text \<open>
  The events the event loop delivers to the window: a command from the server thread; a
  step or the end of the running animation (the end calls \<^verbatim>\<open>on_fade_finished\<close>); the
  timeout of the running media timer; a frame or the final signal of a video thread; the
  return of the \<^verbatim>\<open>run\<close> of a thread that is alive; the startup single shot; a quit key.
  \<open>step\<close> is \<open>None\<close> for an event that cannot occur in the state, and once the window is
  closed.
\<close>

datatype event =
    Command "(string \<times> json) list"
  | AnimationTick nat
  | AnimationFinished
  | MediaTimeout
  | FrameDelivered frame
  | FinishedDelivered "frame option"
  | ThreadReturns nat
  | StartupTimer
  | QuitKey

definition step :: "env \<Rightarrow> window \<Rightarrow> event \<Rightarrow> window option" where
  "step e s ev =
     (if closed s then None
      else case ev of
        Command command \<Rightarrow> handle_ipc_command e command s
      | AnimationTick t \<Rightarrow>
          if anim_running s \<and> t < 150 then Some (animation_tick t s) else None
      | AnimationFinished \<Rightarrow>
          if anim_running s then Some (on_fade_finished e (animation_end s)) else None
      | MediaTimeout \<Rightarrow>
          if media_timer s \<noteq> None then Some (on_media_timeout s) else None
      | FrameDelivered f \<Rightarrow> Some (update_frame e f s)
      | FinishedDelivered lf \<Rightarrow> Some (on_video_finished e lf s)
      | ThreadReturns t \<Rightarrow>
          if t \<in> set (alive s) then Some (s\<lparr>alive := removeAll t (alive s)\<rparr>) else None
      | StartupTimer \<Rightarrow>
          if startup_timer s
          then Some (display_initial_background e (s\<lparr>startup_timer := False\<rparr>))
          else None
      | QuitKey \<Rightarrow> Some (closeEvent s))"

fun run_events :: "env \<Rightarrow> window \<Rightarrow> event list \<Rightarrow> window option" where
  "run_events e s [] = Some s"
| "run_events e s (ev # evs) =
     (case step e s ev of None \<Rightarrow> None | Some s' \<Rightarrow> run_events e s' evs)"

definition init :: "env \<Rightarrow> string option \<Rightarrow> window" where
  \<comment> \<open>\<^verbatim>\<open>__init__\<close>, lines 217--266\<close>
  "init e background =
     \<lparr>background_image = background, current_file = None, video_thread = None,
      is_transitioning = False, pending_command = None, opacity = 1,
      anim_running = False, anim_start = 0, anim_end = 0, anim_time = 0,
      media_timer = None, pixmap = None,
      cached_video_size = None, cached_display_size = None,
      alive = [], next_thread = 0,
      startup_timer = (case background of None \<Rightarrow> False | Some b \<Rightarrow> b \<noteq> [] \<and> path_exists e b),
      closed = False, trace = []\<rparr>"

definition reachable :: "env \<Rightarrow> string option \<Rightarrow> window \<Rightarrow> bool" where
  "reachable e background s = (\<exists>evs. run_events e (init e background) evs = Some s)"

definition deliver :: "env \<Rightarrow> connection \<Rightarrow> window \<Rightarrow> window option" where
  \<comment> \<open>the effect of one connection on the window: the command emitted, if any, handled\<close>
  "deliver e c s =
     (case dispatched (serve_connection c) of
        None \<Rightarrow> Some s
      | Some command \<Rightarrow> handle_ipc_command e command s)"

subsection \<open>A concrete installation\<close>

text \<open>
  An environment for running the model on examples: a 1280 by 720 screen, a video
  \<^verbatim>\<open>clip.mp4\<close>, a second video \<^verbatim>\<open>other.mp4\<close>, a picture \<^verbatim>\<open>photo.png\<close> of 800 by 600, a
  background \<^verbatim>\<open>bg.png\<close> of 1920 by 1080 and a file \<^verbatim>\<open>broken.png\<close> that is no picture.
\<close>

definition demo_env :: env where
  "demo_env =
     \<lparr>path_exists = (\<lambda>p. p \<in> set [''clip.mp4'', ''other.mp4'', ''photo.png'', ''bg.png'',
                                      ''broken.png'']),
      image_open = (\<lambda>p. if p = ''photo.png'' then Some (800, 600)
                         else if p = ''bg.png'' then Some (1920, 1080) else None),
      suffix_lower = (\<lambda>p. drop (length p - 4) p),
      screen_geometry = (1280, 720),
      label_size = (1280, 720)\<rparr>"

definition play_command :: "string \<Rightarrow> int \<Rightarrow> (string \<times> json) list" where
  "play_command file duration =
     [(''command'', JString ''PLAY''), (''file'', JString file), (''duration'', JInt duration)]"

definition stop_command :: "(string \<times> json) list" where
  "stop_command = [(''command'', JString ''STOP'')]"


subsection \<open>The consistency of a window\<close>

text \<open>
  What holds of the window between any two events: the threads that are alive are at
  most the one the window refers to; a transition request is pending exactly while
  \<open>is_transitioning\<close> is set, and then the animation is running from 1 to 0, the opacity
  is still positive and no thread is alive; a running animation is short of its end, and
  one that runs towards opacity 0 belongs to a transition; and the media timer is not
  active during a transition.
\<close>

definition consistent :: "window \<Rightarrow> bool" where
  "consistent s \<longleftrightarrow>
     distinct (alive s) \<and> set (alive s) \<subseteq> set_option (video_thread s)
     \<and> (is_transitioning s \<longleftrightarrow> pending_command s \<noteq> None)
     \<and> (is_transitioning s \<longrightarrow>
          anim_running s \<and> anim_start s = 1 \<and> anim_end s = 0 \<and> 0 < opacity s \<and> alive s = [])
     \<and> (anim_running s \<longrightarrow> anim_time s < 150)
     \<and> (anim_running s \<and> anim_end s = 0 \<longrightarrow> is_transitioning s)
     \<and> (media_timer s \<noteq> None \<longrightarrow> \<not> is_transitioning s)"


fun passing :: "event \<Rightarrow> bool" where
  \<comment> \<open>the events that may come between two commands without ending a fade: all but
     commands, the end of the animation, the startup display and a quit key\<close>
  "passing (AnimationTick t) = True"
| "passing (FrameDelivered f) = True"
| "passing (FinishedDelivered lf) = True"
| "passing (ThreadReturns t) = True"
| "passing MediaTimeout = True"
| "passing _ = False"

definition fade_outs :: "window \<Rightarrow> nat" where
  \<comment> \<open>how many fade-out animations the window has started\<close>
  "fade_outs s = length (filter (\<lambda>x. x = FadeOut) (trace s))"

definition fading_out :: "window \<Rightarrow> bool" where
  \<comment> \<open>a fade-out animation is in flight\<close>
  "fading_out s \<longleftrightarrow> anim_running s \<and> anim_end s = 0"

definition shown :: "effect list \<Rightarrow> string list" where
  \<comment> \<open>the files put on the screen, in order: a picture set as pixmap, a video started\<close>
  "shown es =
     List.map_filter
       (\<lambda>x. case x of
               SetPixmap (ImagePixmap f sz) \<Rightarrow> Some f
             | StartThread t f d \<Rightarrow> Some f
             | _ \<Rightarrow> None) es"

definition displayable :: "env \<Rightarrow> bool \<Rightarrow> string \<Rightarrow> bool" where
  \<comment> \<open>\<^verbatim>\<open>display_image\<close> gets as far as \<^verbatim>\<open>setPixmap\<close>: the file opens as a picture and
     its scaled size has at least one pixel on each axis\<close>
  "displayable e is_background f =
     (case image_open e f of
        None \<Rightarrow> False
      | Some img \<Rightarrow>
          (case display_image_size is_background
                  (effective_screen (screen_geometry e) (label_size e)) img of
             Inl err \<Rightarrow> False
           | Inr new \<Rightarrow> 1 \<le> fst new \<and> 1 \<le> snd new))"

definition demo_run :: "event list \<Rightarrow> window option" where
  "demo_run evs = run_events demo_env (init demo_env (Some ''bg.png'')) evs"

definition quoted :: "string \<Rightarrow> string" where
  "quoted s = CHR 0x22 # s @ [CHR 0x22]"

definition object_text :: "string \<Rightarrow> string \<Rightarrow> string" where
  \<comment> \<open>the text of a JSON object with one string member\<close>
  "object_text k v = ''{'' @ quoted k @ '': '' @ quoted v @ ''}''"

section \<open>Properties of the scaling computation\<close>

lemma round_half_even_nonneg: "0 \<le> x \<Longrightarrow> 0 \<le> round_half_even x"
  by (simp add: round_half_even_def Let_def)

lemma fl_nonneg: "0 \<le> x \<Longrightarrow> 0 \<le> fl x"
  by (simp add: fl_def Let_def round_half_even_nonneg)

lemma py_int_fl_nonneg: "0 \<le> x \<Longrightarrow> py_int (fl x) = \<lfloor>fl x\<rfloor>"
  by (simp add: py_int_def fl_nonneg)

lemma true_div_pos: "0 < b \<Longrightarrow> true_div a b = Inr (fl (of_int a / of_int b))"
  by (simp add: true_div_def)

lemma scaled_nonneg:
  assumes "0 < w" "0 < h" "0 < W" "0 < H" "0 \<le> n"
  shows "0 \<le> of_int n * min (fl (of_int W / of_int w)) (fl (of_int H / of_int h))"
    and "0 \<le> of_int n * max (fl (of_int W / of_int w)) (fl (of_int H / of_int h))"
proof -
  have "0 \<le> fl (of_int W / of_int w)" "0 \<le> fl (of_int H / of_int h)"
    using assms by (simp_all add: fl_nonneg)
  with assms show "0 \<le> of_int n * min (fl (of_int W / of_int w)) (fl (of_int H / of_int h))"
    and "0 \<le> of_int n * max (fl (of_int W / of_int w)) (fl (of_int H / of_int h))"
    by (simp_all add: min_def max_def)
qed

lemma double_one_tenth: "fl (1 / 10) = 3602879701896397 / 36028797018963968"
  by code_simp

lemma display_image_size_fit:
  assumes "0 < w" "0 < h" "0 < W" "0 < H"
  shows "display_image_size False (W, H) (w, h) =
      Inr (\<lfloor>fl (of_int w * min (fl (of_int W / of_int w)) (fl (of_int H / of_int h)))\<rfloor>,
           \<lfloor>fl (of_int h * min (fl (of_int W / of_int w)) (fl (of_int H / of_int h)))\<rfloor>)"
  using assms scaled_nonneg(1)[OF assms, of w] scaled_nonneg(1)[OF assms, of h]
  by (simp add: display_image_size_def display_image_scale_def true_div_pos
      int_times_float_def py_int_fl_nonneg)

lemma update_frame_size_eq: "update_frame_size screen src = display_image_size False screen src"
  by (simp add: update_frame_size_def display_image_size_def display_image_scale_def Let_def
      split: sum.splits)

lemma fit_full_hd_on_720p: "display_image_size False (1280, 720) (1920, 1080) = Inr (1280, 720)"
  by code_simp

lemma display_image_scale_pos:
  assumes "0 < w" "0 < h"
  shows "display_image_scale fill (W, H) (w, h) =
      Inr (if fill then max (fl (of_int W / of_int w)) (fl (of_int H / of_int h))
           else min (fl (of_int W / of_int w)) (fl (of_int H / of_int h)))"
  using assms by (simp add: display_image_scale_def true_div_pos)

lemma display_image_crop_fit: "display_image_crop False screen new = None"
  by (simp add: display_image_crop_def)

lemma display_image_crop_covering:
  assumes "W \<le> nw" "H \<le> nh"
  shows "display_image_crop True (W, H) (nw, nh) =
           (if nw = W \<and> nh = H then None
            else Some ((nw - W) div 2, (nh - H) div 2, (nw - W) div 2 + W, (nh - H) div 2 + H))"
    and "0 \<le> (nw - W) div 2" and "(nw - W) div 2 + W \<le> nw"
    and "0 \<le> (nh - H) div 2" and "(nh - H) div 2 + H \<le> nh"
  using assms by (auto simp add: display_image_crop_def Let_def)

text \<open>
  Claim C4, as the code has it.  For positive source and screen sizes the Fit path
  (\<^verbatim>\<open>is_background = False\<close>) scales by \<open>min (W / w) (H / h)\<close>, both quotients and both
  products being doubles; the new size is the product \<^emph>\<open>truncated\<close> by \<^verbatim>\<open>int(...)\<close>, not
  rounded; Fit never crops, and \<^verbatim>\<open>update_frame\<close> computes the size of a video frame as
  \<^verbatim>\<open>display_image\<close> does for Fit.  The Fill path (\<^verbatim>\<open>is_background = True\<close>) scales by
  \<open>max (W / w) (H / h)\<close>; whenever the size it computes covers the screen on both axes,
  that size is left as it is when it equals the screen and is otherwise cropped to the
  box of the screen's size \<open>(W, H)\<close> whose left and top edges are half the excess, a box
  that lies within the scaled picture.  A 1920 by 1080 source on a 1280 by 720 screen
  gives exactly 1280 by 720.
\<close>

theorem scaling_truncates:
  assumes "0 < w" and "0 < h" and "0 < W" and "0 < H"
  shows "(let fit = min (fl (of_int W / of_int w)) (fl (of_int H / of_int h));
              new = (\<lfloor>fl (of_int w * fit)\<rfloor>, \<lfloor>fl (of_int h * fit)\<rfloor>)
          in display_image_scale False (W, H) (w, h) = Inr fit
           \<and> display_image_size False (W, H) (w, h) = Inr new
           \<and> display_image_crop False (W, H) new = None
           \<and> update_frame_size (W, H) (w, h) = Inr new)
       \<and> display_image_scale True (W, H) (w, h) =
           Inr (max (fl (of_int W / of_int w)) (fl (of_int H / of_int h)))
       \<and> (\<forall>nw nh. display_image_size True (W, H) (w, h) = Inr (nw, nh) \<and> W \<le> nw \<and> H \<le> nh
            \<longrightarrow> display_image_crop True (W, H) (nw, nh) =
                  (if nw = W \<and> nh = H then None
                   else Some ((nw - W) div 2, (nh - H) div 2,
                              (nw - W) div 2 + W, (nh - H) div 2 + H))
                \<and> 0 \<le> (nw - W) div 2 \<and> (nw - W) div 2 + W \<le> nw
                \<and> 0 \<le> (nh - H) div 2 \<and> (nh - H) div 2 + H \<le> nh)
       \<and> display_image_size False (1280, 720) (1920, 1080) = Inr (1280, 720)"
proof -
  have fit: "display_image_scale False (W, H) (w, h) =
      Inr (min (fl (of_int W / of_int w)) (fl (of_int H / of_int h)))"
    and fill: "display_image_scale True (W, H) (w, h) =
      Inr (max (fl (of_int W / of_int w)) (fl (of_int H / of_int h)))"
    using display_image_scale_pos [OF assms(1,2), of False W H]
      display_image_scale_pos [OF assms(1,2), of True W H] by simp_all
  have upd: "update_frame_size (W, H) (w, h) = display_image_size False (W, H) (w, h)"
    by (rule update_frame_size_eq)
  have crop: "display_image_crop True (W, H) (nw, nh) =
                  (if nw = W \<and> nh = H then None
                   else Some ((nw - W) div 2, (nh - H) div 2,
                              (nw - W) div 2 + W, (nh - H) div 2 + H))
                \<and> 0 \<le> (nw - W) div 2 \<and> (nw - W) div 2 + W \<le> nw
                \<and> 0 \<le> (nh - H) div 2 \<and> (nh - H) div 2 + H \<le> nh"
    if "W \<le> nw" "H \<le> nh" for nw nh
    using display_image_crop_covering [OF that] by simp
  have fit_part:
    "(let fit = min (fl (of_int W / of_int w)) (fl (of_int H / of_int h));
          new = (\<lfloor>fl (of_int w * fit)\<rfloor>, \<lfloor>fl (of_int h * fit)\<rfloor>)
      in display_image_scale False (W, H) (w, h) = Inr fit
       \<and> display_image_size False (W, H) (w, h) = Inr new
       \<and> display_image_crop False (W, H) new = None
       \<and> update_frame_size (W, H) (w, h) = Inr new)"
    unfolding Let_def
    using fit upd display_image_size_fit [OF assms] display_image_crop_fit by simp
  have fill_part:
    "\<forall>nw nh. display_image_size True (W, H) (w, h) = Inr (nw, nh) \<and> W \<le> nw \<and> H \<le> nh
        \<longrightarrow> display_image_crop True (W, H) (nw, nh) =
              (if nw = W \<and> nh = H then None
               else Some ((nw - W) div 2, (nh - H) div 2,
                          (nw - W) div 2 + W, (nh - H) div 2 + H))
            \<and> 0 \<le> (nw - W) div 2 \<and> (nw - W) div 2 + W \<le> nw
            \<and> 0 \<le> (nh - H) div 2 \<and> (nh - H) div 2 + H \<le> nh"
    using crop by blast
  from fit_part fill fill_part fit_full_hd_on_720p show ?thesis
    by (intro conjI)
qed

text \<open>
  The theorem at an 800 by 600 source on a 1280 by 720 screen: Fit gives 960 by 720 and
  no crop; Fill gives 1280 by 960, which covers the screen, and the crop box
  \<open>(0, 120, 1280, 840)\<close>.
\<close>

theorem scaling_truncates_witness:
  "(0::int) < 800 \<and> (0::int) < 600 \<and> (0::int) < 1280 \<and> (0::int) < 720
   \<and> display_image_size False (1280, 720) (800, 600) = Inr (960, 720)
   \<and> display_image_crop False (1280, 720) (960, 720) = None
   \<and> update_frame_size (1280, 720) (800, 600) = Inr (960, 720)
   \<and> display_image_size True (1280, 720) (800, 600) = Inr (1280, 960)
   \<and> display_image_crop True (1280, 720) (1280, 960) = Some (0, 120, 1280, 840)"
proof -
  have fit: "min (fl (rat_of_int 1280 / rat_of_int 800)) (fl (rat_of_int 720 / rat_of_int 600))
      = 5404319552844595 / 4503599627370496"
    by code_simp
  have v: "\<lfloor>fl (rat_of_int 800 * (5404319552844595 / 4503599627370496))\<rfloor> = 960"
    "\<lfloor>fl (rat_of_int 600 * (5404319552844595 / 4503599627370496))\<rfloor> = 720"
    by code_simp+
  have fill: "display_image_size True (1280, 720) (800, 600) = Inr (1280, 960)"
    by code_simp
  show ?thesis
    using scaling_truncates [of 800 600 1280 720] fill
    unfolding Let_def fit v by simp
qed

text \<open>
  Claim C4 as stated asks for the products rounded to the nearest integer.  A 4 by 1
  source on a 7 by 100 screen is scaled by 1.75 (every step exact in doubles): the code
  shows it 7 by 1, rounding would give 7 by 2.
\<close>

theorem scaling_does_not_round:
  "display_image_size False (7, 100) (4, 1) = Inr (7, 1)
   \<and> update_frame_size (7, 100) (4, 1) = Inr (7, 1)
   \<and> spec_fit_size False (7, 100) (4, 1) = (7, 2)"
  by code_simp

text \<open>
  The same truncation on the Fill path lets a background fall short of the screen, which
  the comment of line 316 (\<^verbatim>\<open>fill entire screen\<close>) rules out: on a 1920 by 1080 screen a
  1408 by 792 background is scaled to 1919 by 1080 and not cropped, and a 604 by 453
  background to 1919 by 1440, cropped to a box that starts one pixel left of the picture.
\<close>

lemma fill_falls_short_of_screen:
  "display_image_size True (1920, 1080) (1408, 792) = Inr (1919, 1080)
   \<and> display_image_crop True (1920, 1080) (1919, 1080) = None
   \<and> display_image_size True (1920, 1080) (604, 453) = Inr (1919, 1440)
   \<and> display_image_crop True (1920, 1080) (1919, 1440) = Some (- 1, 180, 1919, 1260)"
  by code_simp

section \<open>Properties of the frame producer\<close>

subsection \<open>One iteration of the loop\<close>

lemma run_loop_stops:
  "\<not> continues d it \<Longrightarrow> run_loop d lf (it # its) = [PlaybackFinished lf]"
  by (cases "polled it") (auto simp add: continues_def split: option.splits)

lemma run_loop_emits:
  assumes "continues d it" "decoded it = Some (f, pts, a)"
  shows "run_loop d lf (it # its) =
           FrameReady f # sync_actions (av_sync pts a) @ run_loop d (Some f) its"
  using assms
  by (cases "polled it")
     (auto simp add: continues_def decoded_def split: option.splits val.splits)

lemma run_loop_idles:
  assumes "continues d it" "decoded it = None"
  shows "run_loop d lf (it # its) = idle_actions it @ run_loop d lf its"
  using assms
  by (cases "polled it")
     (auto simp add: continues_def decoded_def idle_actions_def split: option.splits val.splits)

lemma emitted_append: "emitted (xs @ ys) = emitted xs @ emitted ys"
  by (simp add: emitted_def List.map_filter_def)

lemma emitted_simps:
  "emitted [] = []"
  "emitted (Sleep t # as) = emitted as"
  "emitted (FrameReady f # as) = f # emitted as"
  "emitted (PlaybackFinished lf # as) = emitted as"
  by (simp_all add: emitted_def List.map_filter_def)

lemma emitted_sync_actions: "emitted (sync_actions sy) = []"
  by (cases sy) (simp_all add: emitted_simps)

lemma emitted_idle_actions: "emitted (idle_actions it) = []"
  by (cases "polled it") (simp_all add: idle_actions_def emitted_simps)

lemma emitted_run_loop:
  "emitted (run_loop d lf its) = List.map_filter decoded_frame (takeWhile (continues d) its)"
proof (induction its arbitrary: lf)
  case Nil
  show ?case by (simp add: emitted_simps List.map_filter_def)
next
  case (Cons it its)
  show ?case
  proof (cases "continues d it")
    case False
    then show ?thesis
      by (simp add: run_loop_stops emitted_simps List.map_filter_def del: run_loop.simps)
  next
    case True
    show ?thesis
    proof (cases "decoded it")
      case None
      with True Cons.IH [of lf] show ?thesis
        by (simp add: run_loop_idles emitted_append emitted_idle_actions
            List.map_filter_def decoded_frame_def del: run_loop.simps)
    next
      case (Some r)
      obtain f pts a where r: "r = (f, pts, a)" by (cases r)
      with True Some Cons.IH [of "Some f"] show ?thesis
        by (simp add: run_loop_emits emitted_append emitted_simps emitted_sync_actions
            List.map_filter_def decoded_frame_def del: run_loop.simps)
    qed
  qed
qed

lemma run_loop_prefix: "prefix (run_loop d lf its) (run_loop d lf (its @ rest))"
proof (induction its arbitrary: lf)
  case Nil
  show ?case by simp
next
  case (Cons it its)
  show ?case
  proof (cases "continues d it")
    case False
    then show ?thesis by (simp add: run_loop_stops del: run_loop.simps)
  next
    case True
    show ?thesis
    proof (cases "decoded it")
      case None
      with True Cons.IH [of lf] show ?thesis
        by (simp add: run_loop_idles del: run_loop.simps)
    next
      case (Some r)
      obtain f pts a where r: "r = (f, pts, a)" by (cases r)
      with True Some Cons.IH [of "Some f"] show ?thesis
        by (simp add: run_loop_emits del: run_loop.simps)
    qed
  qed
qed

lemma sync_actions_av_sync:
  "sync_actions (av_sync pts a) =
     (if 0 < a \<and> 0 < pts then
        (if fl (1 / 1000) < fl (pts - a) then [Sleep (min (fl (pts - a)) (fl (1 / 10)))]
         else [])
      else [Sleep (fl (1 / 1000))])"
  by (simp add: av_sync_def Let_def)

lemma lagging_frame_not_ahead:
  assumes "fl (pts - a) < - fl (5 / 100)"
  shows "\<not> fl (1 / 1000) < fl (pts - a)"
proof -
  have "(0::rat) \<le> fl (5 / 100)" "(0::rat) \<le> fl (1 / 1000)"
    by (simp_all add: fl_nonneg)
  with assms show ?thesis by linarith
qed

text \<open>
  Claim C3, as the code has it.  An iteration that decodes and converts a frame emits it
  and then: when both timestamps are positive and the delay \<open>pts - audio_pts\<close> exceeds
  1 ms, sleeps \<open>min delay 100 ms\<close>; when both are positive and the delay is at most 1 ms
  (more than 50 ms behind, or in step with the audio), does not sleep at all and goes on
  to the next iteration; and only when a timestamp is not positive (no audio reference)
  sleeps the fixed 1 ms.
\<close>

theorem sync_policy:
  assumes "continues d it" and "decoded it = Some (f, pts, a)"
  shows "run_loop d lf (it # its) =
           FrameReady f #
           (if 0 < a \<and> 0 < pts then
              (if fl (1 / 1000) < fl (pts - a) then [Sleep (min (fl (pts - a)) (fl (1 / 10)))]
               else [])
            else [Sleep (fl (1 / 1000))])
           @ run_loop d (Some f) its"
  using run_loop_emits [OF assms, of lf its] by (simp only: sync_actions_av_sync)

text \<open>
  The theorem at a frame half a second ahead of the audio (timestamp 2 s, audio clock
  1.5 s): the sleep is capped at 100 ms.
\<close>

theorem sync_policy_witness:
  "run_loop 0 None (stream [(7, 2)] (3 / 2) @ [end_of_file]) =
     [FrameReady (Frame 7 (640, 480)), Sleep (fl (1 / 10)),
      PlaybackFinished (Some (Frame 7 (640, 480)))]"
proof -
  let ?it = "\<lparr>running = True, elapsed = 0,
      polled = Got (Some (Some (Image (Some (Frame 7 (640, 480)))), 2)) OtherVal,
      audio_clock = Some (3 / 2)\<rparr>"
  have c: "continues 0 ?it" by (simp add: continues_def)
  have d: "decoded ?it = Some (Frame 7 (640, 480), 2, 3 / 2)" by (simp add: decoded_def)
  have e: "fl (1 / 1000) < fl (2 - 3 / 2)" by code_simp
  have m: "min (fl (2 - 3 / 2)) (fl (1 / 10)) = fl (1 / 10)" by code_simp
  have r: "run_loop 0 (Some (Frame 7 (640, 480))) [end_of_file] =
      [PlaybackFinished (Some (Frame 7 (640, 480)))]"
    by (simp add: end_of_file_def)
  show ?thesis
    using sync_policy [OF c d, of None "[end_of_file]"] e m r
    by (simp add: stream_def del: run_loop.simps)
qed

text \<open>
  Claim C3 as stated has the producer sleep about 1 ms in every case that is neither
  ahead by more than 1 ms nor behind by more than 50 ms.  A frame exactly in step with
  the audio (timestamp 1 s, audio clock 1 s, delay 0) is such a case, and the loop does
  not sleep after it.
\<close>

theorem in_step_frame_no_sleep:
  "sleeps (run_loop 0 None (stream [(0, 1)] 1)) = []
   \<and> \<not> fl (1 / 1000) < fl (1 - 1) \<and> \<not> fl (1 - 1) < - fl (5 / 100)
   \<and> av_sync 1 1 = Proceed"
  by code_simp

text \<open>
  Claim C8, as the code has it.  The frames the thread emits are exactly the frames it
  decodes and converts, each once and in the order of decoding, up to the iteration that
  ends the loop; what the thread has done is never undone by later iterations (the
  actions of a longer run extend those of a shorter one); a frame more than 50 ms behind
  the audio, \<^emph>\<open>both timestamps being positive\<close>, is emitted and followed at once by the next
  iteration, without a sleep; and for the timestamps \<open>[0, 1, 2, 3]\<close> with the audio clock
  at 3.1 the frames 0 to 3 are emitted in order, once each, the frames 1 to 3 back to
  back, while frame 0, whose timestamp is not positive, is followed by the 1 ms sleep of
  the branch without a reference.
\<close>

theorem frames_emitted_once_in_order:
  "emitted (run_loop d lf its) = List.map_filter decoded_frame (takeWhile (continues d) its)
   \<and> prefix (run_loop d lf its) (run_loop d lf (its @ rest))
   \<and> (continues d it \<and> decoded it = Some (f, pts, a) \<and> 0 < a \<and> 0 < pts
        \<and> fl (pts - a) < - fl (5 / 100)
      \<longrightarrow> run_loop d lf (it # its) = FrameReady f # run_loop d (Some f) its)
   \<and> run True 0 (stream [(0, 0), (1, 1), (2, 2), (3, 3)] (fl (31 / 10)) @ [end_of_file]) =
       Inr [FrameReady (Frame 0 (640, 480)), Sleep (fl (1 / 1000)),
            FrameReady (Frame 1 (640, 480)), FrameReady (Frame 2 (640, 480)),
            FrameReady (Frame 3 (640, 480)), PlaybackFinished (Some (Frame 3 (640, 480)))]"
proof -
  have lag: "run_loop d lf (it # its) = FrameReady f # run_loop d (Some f) its"
    if "continues d it" "decoded it = Some (f, pts, a)" "0 < a" "0 < pts"
      "fl (pts - a) < - fl (5 / 100)"
    using run_loop_emits [OF that(1,2), of lf its] that(3,4) lagging_frame_not_ahead [OF that(5)]
    by (simp only: sync_actions_av_sync) simp
  have ex: "run True 0 (stream [(0, 0), (1, 1), (2, 2), (3, 3)] (fl (31 / 10)) @ [end_of_file]) =
       Inr [FrameReady (Frame 0 (640, 480)), Sleep (fl (1 / 1000)),
            FrameReady (Frame 1 (640, 480)), FrameReady (Frame 2 (640, 480)),
            FrameReady (Frame 3 (640, 480)), PlaybackFinished (Some (Frame 3 (640, 480)))]"
    by code_simp
  show ?thesis
    using emitted_run_loop [of d lf its] run_loop_prefix [of d lf its rest] lag ex
    by blast
qed

text \<open>
  The theorem at the run of the claim, the four frames and then the end of the file, and
  at frame 1 of it: timestamp 1 s, audio clock 3.1 s, both positive, more than 50 ms
  behind.
\<close>

theorem frames_emitted_once_in_order_witness:
  "emitted (run_loop 0 None (stream [(0, 0), (1, 1), (2, 2), (3, 3)] (fl (31 / 10))
       @ [end_of_file])) =
     [Frame 0 (640, 480), Frame 1 (640, 480), Frame 2 (640, 480), Frame 3 (640, 480)]
   \<and> prefix (run_loop 0 None (stream [(0, 0), (1, 1)] (fl (31 / 10))))
        (run_loop 0 None (stream [(0, 0), (1, 1)] (fl (31 / 10)) @ [end_of_file]))
   \<and> run_loop 0 (Some (Frame 0 (640, 480))) (stream [(1, 1)] (fl (31 / 10)) @ [end_of_file]) =
       [FrameReady (Frame 1 (640, 480)), PlaybackFinished (Some (Frame 1 (640, 480)))]"
proof -
  let ?it = "\<lparr>running = True, elapsed = 0,
      polled = Got (Some (Some (Image (Some (Frame 1 (640, 480)))), 1)) OtherVal,
      audio_clock = Some (fl (31 / 10))\<rparr>"
  have v: "List.map_filter decoded_frame (takeWhile (continues 0)
        (stream [(0, 0), (1, 1), (2, 2), (3, 3)] (fl (31 / 10)) @ [end_of_file])) =
     [Frame 0 (640, 480), Frame 1 (640, 480), Frame 2 (640, 480), Frame 3 (640, 480)]"
    by code_simp
  have c: "continues 0 ?it" by (simp add: continues_def)
  have d: "decoded ?it = Some (Frame 1 (640, 480), 1, fl (31 / 10))"
    by (simp add: decoded_def)
  have p: "0 < fl (31 / 10)" "fl (1 - fl (31 / 10)) < - fl (5 / 100)" by code_simp+
  have r: "run_loop 0 (Some (Frame 1 (640, 480))) [end_of_file] =
      [PlaybackFinished (Some (Frame 1 (640, 480)))]"
    by (simp add: end_of_file_def)
  have s: "stream [(1, 1)] (fl (31 / 10)) @ [end_of_file] = ?it # [end_of_file]"
    by (simp add: stream_def)
  have "run_loop 0 (Some (Frame 0 (640, 480))) (?it # [end_of_file]) =
      FrameReady (Frame 1 (640, 480)) # run_loop 0 (Some (Frame 1 (640, 480))) [end_of_file]"
    using frames_emitted_once_in_order [of 0 "Some (Frame 0 (640, 480))" "[end_of_file]" "[]"
        ?it "Frame 1 (640, 480)" 1 "fl (31 / 10)"] c d p
    by (simp del: run_loop.simps)
  then have t: "run_loop 0 (Some (Frame 0 (640, 480)))
        (stream [(1, 1)] (fl (31 / 10)) @ [end_of_file]) =
      [FrameReady (Frame 1 (640, 480)), PlaybackFinished (Some (Frame 1 (640, 480)))]"
    by (simp only: s r)
  show ?thesis
    using frames_emitted_once_in_order
      [of 0 None "stream [(0, 0), (1, 1), (2, 2), (3, 3)] (fl (31 / 10)) @ [end_of_file]"]
      frames_emitted_once_in_order [of 0 None "stream [(0, 0), (1, 1)] (fl (31 / 10))"
        "[end_of_file]"] t
    by (simp only: v)
qed

text \<open>
  Claim C8 as stated has every frame that lags the audio by more than 50 ms followed by
  the next one with no sleep between them, frame 0 of its own example included.  In that
  example frame 0 has the timestamp 0 and lags the audio clock by 3.1 s; its timestamp
  not being positive, the loop takes the branch without a reference and sleeps 1 ms
  between frame 0 and frame 1.
\<close>

theorem lagging_first_frame_sleeps:
  "map decoded (stream [(0, 0), (1, 1)] (fl (31 / 10))) =
     [Some (Frame 0 (640, 480), 0, fl (31 / 10)), Some (Frame 1 (640, 480), 1, fl (31 / 10))]
   \<and> fl (0 - fl (31 / 10)) < - fl (5 / 100)
   \<and> av_sync 0 (fl (31 / 10)) = SleepFor (fl (1 / 1000))
   \<and> run_loop 0 None (stream [(0, 0), (1, 1)] (fl (31 / 10))) =
       [FrameReady (Frame 0 (640, 480)), Sleep (fl (1 / 1000)),
        FrameReady (Frame 1 (640, 480))]"
  by code_simp

section \<open>Properties of the playback controller\<close>

subsection \<open>What each method leaves alone\<close>

lemma emit_fields [simp]:
  "background_image (emit x s) = background_image s"
  "current_file (emit x s) = current_file s"
  "video_thread (emit x s) = video_thread s"
  "is_transitioning (emit x s) = is_transitioning s"
  "pending_command (emit x s) = pending_command s"
  "opacity (emit x s) = opacity s"
  "anim_running (emit x s) = anim_running s"
  "anim_start (emit x s) = anim_start s"
  "anim_end (emit x s) = anim_end s"
  "anim_time (emit x s) = anim_time s"
  "media_timer (emit x s) = media_timer s"
  "pixmap (emit x s) = pixmap s"
  "cached_video_size (emit x s) = cached_video_size s"
  "cached_display_size (emit x s) = cached_display_size s"
  "alive (emit x s) = alive s"
  "next_thread (emit x s) = next_thread s"
  "startup_timer (emit x s) = startup_timer s"
  "closed (emit x s) = closed s"
  by (simp_all add: emit_def)

lemma write_opacity_fields [simp]:
  "background_image (write_opacity s) = background_image s"
  "current_file (write_opacity s) = current_file s"
  "video_thread (write_opacity s) = video_thread s"
  "is_transitioning (write_opacity s) = is_transitioning s"
  "pending_command (write_opacity s) = pending_command s"
  "anim_running (write_opacity s) = anim_running s"
  "anim_start (write_opacity s) = anim_start s"
  "anim_end (write_opacity s) = anim_end s"
  "anim_time (write_opacity s) = anim_time s"
  "media_timer (write_opacity s) = media_timer s"
  "pixmap (write_opacity s) = pixmap s"
  "cached_video_size (write_opacity s) = cached_video_size s"
  "cached_display_size (write_opacity s) = cached_display_size s"
  "alive (write_opacity s) = alive s"
  "next_thread (write_opacity s) = next_thread s"
  "startup_timer (write_opacity s) = startup_timer s"
  "closed (write_opacity s) = closed s"
  "trace (write_opacity s) = trace s"
  by (simp_all add: write_opacity_def)

lemma setStartValue_fields [simp]:
  "background_image (setStartValue v s) = background_image s"
  "current_file (setStartValue v s) = current_file s"
  "video_thread (setStartValue v s) = video_thread s"
  "is_transitioning (setStartValue v s) = is_transitioning s"
  "pending_command (setStartValue v s) = pending_command s"
  "anim_running (setStartValue v s) = anim_running s"
  "anim_end (setStartValue v s) = anim_end s"
  "anim_time (setStartValue v s) = anim_time s"
  "media_timer (setStartValue v s) = media_timer s"
  "pixmap (setStartValue v s) = pixmap s"
  "cached_video_size (setStartValue v s) = cached_video_size s"
  "cached_display_size (setStartValue v s) = cached_display_size s"
  "alive (setStartValue v s) = alive s"
  "next_thread (setStartValue v s) = next_thread s"
  "startup_timer (setStartValue v s) = startup_timer s"
  "closed (setStartValue v s) = closed s"
  "trace (setStartValue v s) = trace s"
  by (simp_all add: setStartValue_def)

lemma setEndValue_fields [simp]:
  "background_image (setEndValue v s) = background_image s"
  "current_file (setEndValue v s) = current_file s"
  "video_thread (setEndValue v s) = video_thread s"
  "is_transitioning (setEndValue v s) = is_transitioning s"
  "pending_command (setEndValue v s) = pending_command s"
  "anim_running (setEndValue v s) = anim_running s"
  "anim_start (setEndValue v s) = anim_start s"
  "anim_time (setEndValue v s) = anim_time s"
  "media_timer (setEndValue v s) = media_timer s"
  "pixmap (setEndValue v s) = pixmap s"
  "cached_video_size (setEndValue v s) = cached_video_size s"
  "cached_display_size (setEndValue v s) = cached_display_size s"
  "alive (setEndValue v s) = alive s"
  "next_thread (setEndValue v s) = next_thread s"
  "startup_timer (setEndValue v s) = startup_timer s"
  "closed (setEndValue v s) = closed s"
  "trace (setEndValue v s) = trace s"
  by (simp_all add: setEndValue_def)

lemma animation_start_fields [simp]:
  "background_image (animation_start s) = background_image s"
  "current_file (animation_start s) = current_file s"
  "video_thread (animation_start s) = video_thread s"
  "is_transitioning (animation_start s) = is_transitioning s"
  "pending_command (animation_start s) = pending_command s"
  "anim_start (animation_start s) = anim_start s"
  "anim_end (animation_start s) = anim_end s"
  "media_timer (animation_start s) = media_timer s"
  "pixmap (animation_start s) = pixmap s"
  "cached_video_size (animation_start s) = cached_video_size s"
  "cached_display_size (animation_start s) = cached_display_size s"
  "alive (animation_start s) = alive s"
  "next_thread (animation_start s) = next_thread s"
  "startup_timer (animation_start s) = startup_timer s"
  "closed (animation_start s) = closed s"
  "trace (animation_start s) = trace s"
  by (simp_all add: animation_start_def)

lemma animation_tick_fields [simp]:
  "background_image (animation_tick t s) = background_image s"
  "current_file (animation_tick t s) = current_file s"
  "video_thread (animation_tick t s) = video_thread s"
  "is_transitioning (animation_tick t s) = is_transitioning s"
  "pending_command (animation_tick t s) = pending_command s"
  "anim_running (animation_tick t s) = anim_running s"
  "anim_start (animation_tick t s) = anim_start s"
  "anim_end (animation_tick t s) = anim_end s"
  "media_timer (animation_tick t s) = media_timer s"
  "pixmap (animation_tick t s) = pixmap s"
  "cached_video_size (animation_tick t s) = cached_video_size s"
  "cached_display_size (animation_tick t s) = cached_display_size s"
  "alive (animation_tick t s) = alive s"
  "next_thread (animation_tick t s) = next_thread s"
  "startup_timer (animation_tick t s) = startup_timer s"
  "closed (animation_tick t s) = closed s"
  "trace (animation_tick t s) = trace s"
  by (simp_all add: animation_tick_def)

lemma animation_end_fields [simp]:
  "background_image (animation_end s) = background_image s"
  "current_file (animation_end s) = current_file s"
  "video_thread (animation_end s) = video_thread s"
  "is_transitioning (animation_end s) = is_transitioning s"
  "pending_command (animation_end s) = pending_command s"
  "anim_start (animation_end s) = anim_start s"
  "anim_end (animation_end s) = anim_end s"
  "media_timer (animation_end s) = media_timer s"
  "pixmap (animation_end s) = pixmap s"
  "cached_video_size (animation_end s) = cached_video_size s"
  "cached_display_size (animation_end s) = cached_display_size s"
  "alive (animation_end s) = alive s"
  "next_thread (animation_end s) = next_thread s"
  "startup_timer (animation_end s) = startup_timer s"
  "closed (animation_end s) = closed s"
  "trace (animation_end s) = trace s"
  by (simp_all add: animation_end_def)

lemma stop_video_thread_fields [simp]:
  "background_image (stop_video_thread s) = background_image s"
  "current_file (stop_video_thread s) = current_file s"
  "video_thread (stop_video_thread s) = video_thread s"
  "is_transitioning (stop_video_thread s) = is_transitioning s"
  "pending_command (stop_video_thread s) = pending_command s"
  "opacity (stop_video_thread s) = opacity s"
  "anim_running (stop_video_thread s) = anim_running s"
  "anim_start (stop_video_thread s) = anim_start s"
  "anim_end (stop_video_thread s) = anim_end s"
  "anim_time (stop_video_thread s) = anim_time s"
  "media_timer (stop_video_thread s) = media_timer s"
  "pixmap (stop_video_thread s) = pixmap s"
  "cached_video_size (stop_video_thread s) = cached_video_size s"
  "cached_display_size (stop_video_thread s) = cached_display_size s"
  "next_thread (stop_video_thread s) = next_thread s"
  "startup_timer (stop_video_thread s) = startup_timer s"
  "closed (stop_video_thread s) = closed s"
  by (simp_all add: stop_video_thread_def split: option.splits)

lemma display_image_fields [simp]:
  "background_image (display_image e p d b s) = background_image s"
  "current_file (display_image e p d b s) = current_file s"
  "video_thread (display_image e p d b s) = video_thread s"
  "is_transitioning (display_image e p d b s) = is_transitioning s"
  "pending_command (display_image e p d b s) = pending_command s"
  "opacity (display_image e p d b s) = opacity s"
  "anim_running (display_image e p d b s) = anim_running s"
  "anim_start (display_image e p d b s) = anim_start s"
  "anim_end (display_image e p d b s) = anim_end s"
  "anim_time (display_image e p d b s) = anim_time s"
  "cached_video_size (display_image e p d b s) = cached_video_size s"
  "cached_display_size (display_image e p d b s) = cached_display_size s"
  "alive (display_image e p d b s) = alive s"
  "next_thread (display_image e p d b s) = next_thread s"
  "startup_timer (display_image e p d b s) = startup_timer s"
  "closed (display_image e p d b s) = closed s"
  by (simp_all add: display_image_def Let_def split: option.splits sum.splits)

lemma display_video_fields [simp]:
  "background_image (display_video p d s) = background_image s"
  "current_file (display_video p d s) = current_file s"
  "is_transitioning (display_video p d s) = is_transitioning s"
  "pending_command (display_video p d s) = pending_command s"
  "opacity (display_video p d s) = opacity s"
  "anim_running (display_video p d s) = anim_running s"
  "anim_start (display_video p d s) = anim_start s"
  "anim_end (display_video p d s) = anim_end s"
  "anim_time (display_video p d s) = anim_time s"
  "media_timer (display_video p d s) = media_timer s"
  "pixmap (display_video p d s) = pixmap s"
  "startup_timer (display_video p d s) = startup_timer s"
  "closed (display_video p d s) = closed s"
  by (simp_all add: display_video_def Let_def)

lemma update_frame_fields [simp]:
  "background_image (update_frame e f s) = background_image s"
  "current_file (update_frame e f s) = current_file s"
  "video_thread (update_frame e f s) = video_thread s"
  "is_transitioning (update_frame e f s) = is_transitioning s"
  "pending_command (update_frame e f s) = pending_command s"
  "opacity (update_frame e f s) = opacity s"
  "anim_running (update_frame e f s) = anim_running s"
  "anim_start (update_frame e f s) = anim_start s"
  "anim_end (update_frame e f s) = anim_end s"
  "anim_time (update_frame e f s) = anim_time s"
  "media_timer (update_frame e f s) = media_timer s"
  "alive (update_frame e f s) = alive s"
  "next_thread (update_frame e f s) = next_thread s"
  "startup_timer (update_frame e f s) = startup_timer s"
  "closed (update_frame e f s) = closed s"
  by (simp_all add: update_frame_def Let_def split: option.splits sum.splits)

lemma fade_in_fields [simp]:
  "background_image (fade_in s) = background_image s"
  "current_file (fade_in s) = current_file s"
  "video_thread (fade_in s) = video_thread s"
  "is_transitioning (fade_in s) = is_transitioning s"
  "pending_command (fade_in s) = pending_command s"
  "media_timer (fade_in s) = media_timer s"
  "pixmap (fade_in s) = pixmap s"
  "cached_video_size (fade_in s) = cached_video_size s"
  "cached_display_size (fade_in s) = cached_display_size s"
  "alive (fade_in s) = alive s"
  "next_thread (fade_in s) = next_thread s"
  "startup_timer (fade_in s) = startup_timer s"
  "closed (fade_in s) = closed s"
  by (simp_all add: fade_in_def)

lemma fade_out_fields [simp]:
  "background_image (fade_out s) = background_image s"
  "current_file (fade_out s) = current_file s"
  "video_thread (fade_out s) = video_thread s"
  "pending_command (fade_out s) = pending_command s"
  "media_timer (fade_out s) = media_timer s"
  "pixmap (fade_out s) = pixmap s"
  "cached_video_size (fade_out s) = cached_video_size s"
  "cached_display_size (fade_out s) = cached_display_size s"
  "next_thread (fade_out s) = next_thread s"
  "startup_timer (fade_out s) = startup_timer s"
  "closed (fade_out s) = closed s"
  by (simp_all add: fade_out_def)

lemma on_video_finished_fields [simp]:
  "background_image (on_video_finished e lf s) = background_image s"
  "current_file (on_video_finished e lf s) = current_file s"
  "video_thread (on_video_finished e lf s) = video_thread s"
  "is_transitioning (on_video_finished e lf s) = is_transitioning s"
  "pending_command (on_video_finished e lf s) = pending_command s"
  "opacity (on_video_finished e lf s) = opacity s"
  "anim_running (on_video_finished e lf s) = anim_running s"
  "anim_start (on_video_finished e lf s) = anim_start s"
  "anim_end (on_video_finished e lf s) = anim_end s"
  "anim_time (on_video_finished e lf s) = anim_time s"
  "media_timer (on_video_finished e lf s) = media_timer s"
  "alive (on_video_finished e lf s) = alive s"
  "next_thread (on_video_finished e lf s) = next_thread s"
  "startup_timer (on_video_finished e lf s) = startup_timer s"
  "closed (on_video_finished e lf s) = closed s"
  by (simp_all add: on_video_finished_def split: option.splits)

lemma trace_emit [simp]: "trace (emit x s) = trace s @ [x]"
  by (simp add: emit_def)

subsection \<open>The animation\<close>

lemma write_opacity_opacity [simp]:
  "opacity (write_opacity s) =
     (if anim_running s then interpolate (anim_start s) (anim_end s) (anim_time s)
      else opacity s)"
  by (simp add: write_opacity_def)

lemma setStartValue_effect [simp]:
  "anim_start (setStartValue v s) = v"
  "opacity (setStartValue v s) =
     (if anim_running s then interpolate v (anim_end s) (anim_time s) else opacity s)"
  by (simp_all add: setStartValue_def)

lemma setEndValue_effect [simp]:
  "anim_end (setEndValue v s) = v"
  "opacity (setEndValue v s) =
     (if anim_running s then interpolate (anim_start s) v (anim_time s) else opacity s)"
  by (simp_all add: setEndValue_def)

lemma animation_start_effect [simp]:
  "anim_running (animation_start s)"
  "anim_time (animation_start s) = (if anim_running s then anim_time s else 0)"
  "opacity (animation_start s) =
     (if anim_running s then opacity s else interpolate (anim_start s) (anim_end s) 0)"
  by (simp_all add: animation_start_def)

lemma animation_tick_effect [simp]:
  "anim_time (animation_tick t s) = t"
  "opacity (animation_tick t s) =
     (if anim_running s then interpolate (anim_start s) (anim_end s) t else opacity s)"
  by (simp_all add: animation_tick_def)

lemma animation_end_effect [simp]:
  "\<not> anim_running (animation_end s)"
  "anim_time (animation_end s) = 150"
  "opacity (animation_end s) =
     (if anim_running s then interpolate (anim_start s) (anim_end s) 150 else opacity s)"
  by (simp_all add: animation_end_def)

lemma ease_zero: "ease_in_out_quad 0 = 0"
  by (simp add: ease_in_out_quad_def)

lemma ease_one: "ease_in_out_quad 1 = 1"
  by (simp add: ease_in_out_quad_def)

lemma ease_less_one:
  assumes "0 \<le> x" "x < 1"
  shows "ease_in_out_quad x < 1"
proof (cases "2 * x < 1")
  case True
  have "2 * x * (2 * x) \<le> 1 * 1"
    using assms True by (intro mult_mono) simp_all
  then show ?thesis using True by (simp add: ease_in_out_quad_def Let_def)
next
  case False
  have e: "ease_in_out_quad x = 1 - (2 - 2 * x) * (2 - 2 * x) / 2"
    using False by (simp add: ease_in_out_quad_def Let_def field_simps)
  have "0 < (2 - 2 * x) * (2 - 2 * x)"
    using assms by (intro mult_pos_pos) simp_all
  then show ?thesis by (simp add: e)
qed

lemma fading_out_visible: "t < 150 \<Longrightarrow> 0 < interpolate 1 0 t"
  using ease_less_one [of "of_nat t / 150"] by (simp add: interpolate_def)

lemma interpolate_ends [simp]:
  "interpolate 1 0 0 = 1" "interpolate 0 1 0 = 0"
  "interpolate 1 0 150 = 0" "interpolate 0 1 150 = 1"
  by (simp_all add: interpolate_def ease_zero ease_one)

subsection \<open>Threads and fades\<close>

lemma stop_video_thread_alive:
  "alive (stop_video_thread s) =
     (case video_thread s of None \<Rightarrow> alive s | Some t \<Rightarrow> removeAll t (alive s))"
  by (simp add: stop_video_thread_def split: option.splits)

lemma stop_video_thread_none:
  assumes "set (alive s) \<subseteq> set_option (video_thread s)"
  shows "alive (stop_video_thread s) = []"
proof (cases "video_thread s")
  case None
  with assms show ?thesis by (simp add: stop_video_thread_alive)
next
  case (Some t)
  with assms have "set (removeAll t (alive s)) = {}" by auto
  then have "removeAll t (alive s) = []" by (simp only: set_empty)
  with Some show ?thesis by (simp add: stop_video_thread_alive)
qed

lemma stop_video_thread_idle: "alive s = [] \<Longrightarrow> stop_video_thread s = s"
  by (simp add: stop_video_thread_def split: option.splits)

lemma fade_in_effect [simp]:
  "anim_running (fade_in s)" "anim_start (fade_in s) = 0" "anim_end (fade_in s) = 1"
  "anim_time (fade_in s) = (if anim_running s then anim_time s else 0)"
  "trace (fade_in s) = trace s @ [FadeIn]"
  by (simp_all add: fade_in_def)

lemma fade_out_again: "is_transitioning s \<Longrightarrow> fade_out s = s"
  by (simp add: fade_out_def)

lemma fade_out_first:
  assumes "\<not> is_transitioning s"
  shows "is_transitioning (fade_out s)" "anim_running (fade_out s)"
    "anim_start (fade_out s) = 1" "anim_end (fade_out s) = 0"
    "anim_time (fade_out s) = (if anim_running s then anim_time s else 0)"
    "alive (fade_out s) = alive (stop_video_thread s)"
    "opacity (fade_out s) = interpolate 1 0 (if anim_running s then anim_time s else 0)"
    "trace (fade_out s) = trace (stop_video_thread (emit FadeOut s))"
  using assms
  by (simp_all add: fade_out_def stop_video_thread_def split: option.splits)

lemma fade_out_opacity_pos:
  assumes "\<not> is_transitioning s" "anim_running s \<longrightarrow> anim_time s < 150"
  shows "0 < opacity (fade_out s)"
  using assms by (simp add: fade_out_first(7) fading_out_visible)

subsection \<open>Consistency is kept by every event\<close>

lemma display_video_effect [simp]:
  "video_thread (display_video p d s) = Some (next_thread s)"
  "alive (display_video p d s) = alive (stop_video_thread s) @ [next_thread s]"
  "trace (display_video p d s) =
     trace (stop_video_thread s) @ [StartThread (next_thread s) p d]"
  by (simp_all add: display_video_def Let_def)

lemma consistent_init: "consistent (init e background)"
  by (simp add: consistent_def init_def)

lemma consistent_fade_out:
  assumes "distinct (alive s)" "set (alive s) \<subseteq> set_option (video_thread s)"
    and "is_transitioning s \<longrightarrow>
          anim_running s \<and> anim_start s = 1 \<and> anim_end s = 0 \<and> 0 < opacity s \<and> alive s = []"
    and "anim_running s \<longrightarrow> anim_time s < 150"
    and "media_timer s = None" and "pending_command s \<noteq> None"
  shows "consistent (fade_out s)"
proof (cases "is_transitioning s")
  case True
  with assms show ?thesis by (simp add: fade_out_again consistent_def)
next
  case False
  note f = fade_out_first [OF False]
  have "alive (fade_out s) = []"
    using assms(2) by (simp add: f(6) stop_video_thread_none)
  moreover have "0 < opacity (fade_out s)"
    using False assms(4) by (rule fade_out_opacity_pos)
  ultimately show ?thesis
    using assms(4,5,6) by (simp add: consistent_def f(1-5))
qed

lemma consistent_fade_in:
  assumes "distinct (alive s)" "set (alive s) \<subseteq> set_option (video_thread s)"
    and "anim_running s \<longrightarrow> anim_time s < 150"
    and "pending_command s = None" 
  shows "consistent ((fade_in s)\<lparr>is_transitioning := False\<rparr>)"
  using assms by (simp add: consistent_def)

lemma consistent_fade_in':
  assumes "distinct (alive s)" "set (alive s) \<subseteq> set_option (video_thread s)"
    and "anim_running s \<longrightarrow> anim_time s < 150"
    and "pending_command s = None" "\<not> is_transitioning s"
  shows "consistent (fade_in s)"
  using assms by (simp add: consistent_def)

lemma threads_display_video:
  assumes "set (alive s) \<subseteq> set_option (video_thread s)"
  shows "alive (display_video p d s) = [next_thread s]"
  using assms by (simp add: stop_video_thread_none)

lemma consistent_play_media:
  assumes "consistent s"
  shows "consistent (play_media e f d s)"
proof (cases "path_exists e f")
  case False
  with assms show ?thesis by (auto simp add: play_media_def consistent_def)
next
  case True
  let ?s3 = "(emit (Print (PlayingMsg f d)) s)\<lparr>media_timer := None, current_file := Some f\<rparr>"
  let ?img = "suffix_lower e f \<in> set image_suffixes"
  show ?thesis
  proof (cases "0 < opacity s")
    case True
    have "consistent (fade_out (?s3\<lparr>pending_command := Some (PendingPlay f d ?img)\<rparr>))"
      using assms by (intro consistent_fade_out) (simp_all add: consistent_def)
    with True \<open>path_exists e f\<close> show ?thesis
      by (simp add: play_media_def Let_def)
  next
    case False
    with assms have nt: "\<not> is_transitioning s" "pending_command s = None"
      by (auto simp add: consistent_def)
    have "consistent (fade_in (if ?img then display_image e f d False ?s3
                               else display_video f d ?s3))"
      using assms nt
      by (intro consistent_fade_in') (simp_all add: consistent_def stop_video_thread_none)
    with False \<open>path_exists e f\<close> show ?thesis
      by (simp add: play_media_def Let_def)
  qed
qed

lemma consistent_stop_video_thread:
  assumes "consistent s"
  shows "consistent (stop_video_thread s)"
  using assms stop_video_thread_none [of s]
  by (auto simp add: consistent_def)

lemma consistent_stop_playback:
  assumes "consistent s"
  shows "consistent (stop_playback e r s)"
proof -
  let ?s3 = "stop_video_thread ((emit (Print StoppingMsg) s)\<lparr>media_timer := None\<rparr>)"
  have a: "alive ?s3 = []"
    using assms by (intro stop_video_thread_none) (simp add: consistent_def)
  show ?thesis
  proof (cases "r \<and> has_background e ?s3")
    case True
    have "consistent (fade_out (?s3\<lparr>pending_command := Some PendingBackground\<rparr>))"
      using assms a by (intro consistent_fade_out) (simp_all add: consistent_def)
    with True show ?thesis by (simp add: stop_playback_def Let_def)
  next
    case False
    have "consistent ?s3"
      using assms a by (auto simp add: consistent_def)
    with False show ?thesis by (auto simp add: stop_playback_def Let_def)
  qed
qed

lemma consistent_closeEvent:
  assumes "consistent s"
  shows "consistent (closeEvent s)"
  using assms stop_video_thread_none [of s]
  by (auto simp add: consistent_def closeEvent_def)

lemma consistent_on_fade_finished:
  assumes "consistent s" "anim_running s"
  shows "consistent (on_fade_finished e (animation_end s))"
proof (cases "pending_command s")
  case None
  with assms show ?thesis
    by (auto simp add: on_fade_finished_def consistent_def)
next
  case (Some cmd)
  let ?s1 = "(animation_end s)\<lparr>pending_command := None\<rparr>"
  have t: "alive s = []" "distinct (alive s)"
    using assms Some by (simp_all add: consistent_def)
  show ?thesis
  proof (cases cmd)
    case (PendingPlay fname duration is_image)
    have "consistent ((fade_in (if is_image then display_image e fname duration False ?s1
            else display_video fname duration ?s1))\<lparr>is_transitioning := False\<rparr>)"
      using t by (intro consistent_fade_in) (simp_all add: stop_video_thread_alive split: option.splits)
    with Some PendingPlay show ?thesis
      by (simp add: on_fade_finished_def Let_def split: if_splits)
  next
    case PendingBackground
    have "consistent ((fade_in (case background_image ?s1 of
            Some b \<Rightarrow> display_image e b 0 True ?s1
          | None \<Rightarrow> emit (Print (ErrorDisplayingImageMsg [])) ?s1))\<lparr>is_transitioning := False\<rparr>)"
      using t by (intro consistent_fade_in) (simp_all split: option.splits)
    with Some PendingBackground show ?thesis
      by (simp add: on_fade_finished_def Let_def)
  qed
qed

lemma display_image_no_duration [simp]:
  "media_timer (display_image e p 0 b s) = media_timer s"
  by (simp add: display_image_def Let_def split: option.splits sum.splits)

lemma consistent_display_initial_background:
  assumes "consistent s"
  shows "consistent (display_initial_background e (s\<lparr>startup_timer := False\<rparr>))"
  using assms
  by (auto simp add: display_initial_background_def consistent_def split: option.splits)

lemma consistent_animation_tick:
  assumes "consistent s" "anim_running s" "t < 150"
  shows "consistent (animation_tick t s)"
  using assms fading_out_visible [of t]
  by (auto simp add: consistent_def)

lemma handle_ipc_command_cases:
  assumes "handle_ipc_command e command s = Some s'"
  shows "s' = s \<or> (\<exists>f d. s' = play_media e f d s) \<or> s' = stop_playback e True s
         \<or> s' = closeEvent s"
proof (cases "map_of command ''command'' = Some (JString ''PLAY'')")
  case False
  with assms show ?thesis
    by (auto simp add: handle_ipc_command_def Let_def split: if_splits)
next
  case True
  show ?thesis
  proof (cases "map_of command ''file''")
    case None
    with True assms show ?thesis by (simp add: handle_ipc_command_def Let_def)
  next
    case (Some fp)
    show ?thesis
    proof (cases "truthy fp")
      case False
      with True Some assms show ?thesis by (simp add: handle_ipc_command_def Let_def)
    next
      case t: True
      obtain dj where dj: "dj = (case map_of command ''duration'' of None \<Rightarrow> JInt 0
                                 | Some d \<Rightarrow> d)"
        by simp
      from True Some t assms dj
      have h: "(case (fp, dj) of (JString f, JInt d) \<Rightarrow> Some (play_media e f d s)
                | _ \<Rightarrow> None) = Some s'"
        by (simp add: handle_ipc_command_def Let_def)
      then obtain f where f: "fp = JString f" by (cases fp) simp_all
      from h f obtain d where d: "dj = JInt d" by (cases dj) simp_all
      from h f d show ?thesis by auto
    qed
  qed
qed

lemma consistent_handle_ipc_command:
  assumes "consistent s" "handle_ipc_command e command s = Some s'"
  shows "consistent s'"
  using handle_ipc_command_cases [OF assms(2)] assms(1)
    consistent_play_media [of s e] consistent_stop_playback [of s e True]
    consistent_closeEvent [of s]
  by auto

lemma consistent_update_frame:
  "consistent s \<Longrightarrow> consistent (update_frame e f s)"
  by (auto simp add: consistent_def)

lemma consistent_on_video_finished:
  "consistent s \<Longrightarrow> consistent (on_video_finished e lf s)"
  by (auto simp add: consistent_def)

lemma consistent_thread_returns:
  assumes "consistent s"
  shows "consistent (s\<lparr>alive := removeAll t (alive s)\<rparr>)"
  using assms by (auto simp add: consistent_def distinct_removeAll)

lemma consistent_step:
  assumes "consistent s" "step e s ev = Some s'"
  shows "consistent s'"
proof (cases ev)
  case (Command command)
  with assms(2) have "handle_ipc_command e command s = Some s'"
    by (simp add: step_def split: if_splits)
  with assms(1) show ?thesis by (rule consistent_handle_ipc_command)
next
  case (AnimationTick t)
  with assms(2) have "anim_running s" "t < 150" "s' = animation_tick t s"
    by (simp_all add: step_def split: if_splits)
  with assms(1) show ?thesis by (simp add: consistent_animation_tick)
next
  case AnimationFinished
  with assms(2) have "anim_running s" "s' = on_fade_finished e (animation_end s)"
    by (simp_all add: step_def split: if_splits)
  with assms(1) show ?thesis by (simp add: consistent_on_fade_finished)
next
  case MediaTimeout
  with assms(2) have "s' = on_media_timeout s"
    by (simp add: step_def split: if_splits)
  with assms(1) show ?thesis by (auto simp add: on_media_timeout_def consistent_def)
next
  case (FrameDelivered f)
  with assms(2) have "s' = update_frame e f s"
    by (simp add: step_def split: if_splits)
  with assms(1) show ?thesis by (simp add: consistent_update_frame)
next
  case (FinishedDelivered lf)
  with assms(2) have "s' = on_video_finished e lf s"
    by (simp add: step_def split: if_splits)
  with assms(1) show ?thesis by (simp add: consistent_on_video_finished)
next
  case (ThreadReturns t)
  with assms(2) have "s' = s\<lparr>alive := removeAll t (alive s)\<rparr>"
    by (simp add: step_def split: if_splits)
  with assms(1) show ?thesis by (simp add: consistent_thread_returns)
next
  case StartupTimer
  with assms(2) have "s' = display_initial_background e (s\<lparr>startup_timer := False\<rparr>)"
    by (simp add: step_def split: if_splits)
  with assms(1) show ?thesis by (simp add: consistent_display_initial_background)
next
  case QuitKey
  with assms(2) have "s' = closeEvent s"
    by (simp add: step_def split: if_splits)
  with assms(1) show ?thesis by (simp add: consistent_closeEvent)
qed

lemma consistent_run_events:
  assumes "consistent s" "run_events e s evs = Some s'"
  shows "consistent s'"
  using assms
proof (induction evs arbitrary: s)
  case Nil
  then show ?case by simp
next
  case (Cons ev evs)
  from Cons.prems(2) obtain s1 where s1: "step e s ev = Some s1" "run_events e s1 evs = Some s'"
    by (auto split: option.splits)
  from Cons.prems(1) s1(1) have "consistent s1" by (rule consistent_step)
  then show ?case using s1(2) by (rule Cons.IH)
qed

lemma reachable_consistent: "reachable e background s \<Longrightarrow> consistent s"
  unfolding reachable_def using consistent_init consistent_run_events by blast

lemma run_events_append:
  "run_events e s (xs @ ys) =
     (case run_events e s xs of None \<Rightarrow> None | Some s' \<Rightarrow> run_events e s' ys)"
  by (induction xs arbitrary: s) (simp_all split: option.splits)

lemma reachable_run_events:
  assumes "reachable e background s" "run_events e s evs = Some s'"
  shows "reachable e background s'"
proof -
  from assms(1) obtain pre where "run_events e (init e background) pre = Some s"
    by (auto simp add: reachable_def)
  with assms(2) have "run_events e (init e background) (pre @ evs) = Some s'"
    by (simp add: run_events_append)
  then show ?thesis unfolding reachable_def by blast
qed

subsection \<open>One video thread at a time\<close>

lemma at_most_one_alive:
  assumes "distinct (alive s)" "set (alive s) \<subseteq> set_option (video_thread s)"
  shows "length (alive s) \<le> 1"
proof (cases "video_thread s")
  case None
  with assms show ?thesis by simp
next
  case (Some t)
  with assms(2) have "card (set (alive s)) \<le> card {t}"
    by (intro card_mono) simp_all
  with assms(1) show ?thesis by (simp add: distinct_card)
qed

lemma fade_out_no_thread:
  assumes "consistent s"
  shows "alive (fade_out s) = []"
proof (cases "is_transitioning s")
  case True
  with assms show ?thesis by (simp add: fade_out_again consistent_def)
next
  case False
  with assms show ?thesis
    by (simp add: fade_out_first(6) stop_video_thread_none consistent_def)
qed

lemma fade_out_keeps_no_thread:
  assumes "alive s = []"
  shows "alive (fade_out s) = []"
proof (cases "is_transitioning s")
  case True
  with assms show ?thesis by (simp add: fade_out_again)
next
  case False
  with assms show ?thesis by (simp add: fade_out_first(6) stop_video_thread_idle)
qed

lemma stop_playback_no_thread:
  assumes "consistent s"
  shows "alive (stop_playback e r s) = []"
proof -
  let ?s3 = "stop_video_thread ((emit (Print StoppingMsg) s)\<lparr>media_timer := None\<rparr>)"
  have a: "alive ?s3 = []"
    using assms by (intro stop_video_thread_none) (simp add: consistent_def)
  then have "alive (fade_out (?s3\<lparr>pending_command := Some PendingBackground\<rparr>)) = []"
    by (intro fade_out_keeps_no_thread) simp
  with a show ?thesis by (simp add: stop_playback_def Let_def)
qed

text \<open>
  Claim C1.  In every state the window reaches from its start, by any sequence of
  events, at most one video thread is alive; \<^verbatim>\<open>display_video\<close> leaves exactly the thread it
  creates alive, having stopped and joined the one that ran; and after \<^verbatim>\<open>fade_out\<close> and
  after \<^verbatim>\<open>stop_playback\<close> no thread is alive.
\<close>

theorem single_session:
  assumes "reachable e background s"
  shows "length (alive s) \<le> 1
       \<and> alive (display_video p d s) = [next_thread s]
       \<and> alive (fade_out s) = []
       \<and> alive (stop_playback e r s) = []"
proof -
  have c: "consistent s" using assms by (rule reachable_consistent)
  then have t: "distinct (alive s)" "set (alive s) \<subseteq> set_option (video_thread s)"
    by (simp_all add: consistent_def)
  show ?thesis
    using at_most_one_alive [OF t] threads_display_video [OF t(2), of p d]
      fade_out_no_thread [OF c] stop_playback_no_thread [OF c, of e r]
    by simp
qed

text \<open>
  The theorem in the demo installation, after \<^verbatim>\<open>clip.mp4\<close> has been started: its thread 0
  is alive; playing another video leaves only the new thread 1; a fade-out or a stop
  leaves none.
\<close>

theorem single_session_witness:
  "map_option alive (demo_run [Command (play_command ''clip.mp4'' 5), AnimationFinished])
     = Some [0]
   \<and> map_option (\<lambda>s. alive (display_video ''other.mp4'' 3 s))
        (demo_run [Command (play_command ''clip.mp4'' 5), AnimationFinished]) = Some [1]
   \<and> map_option (\<lambda>s. alive (fade_out s))
        (demo_run [Command (play_command ''clip.mp4'' 5), AnimationFinished]) = Some []
   \<and> map_option (\<lambda>s. alive (stop_playback demo_env True s))
        (demo_run [Command (play_command ''clip.mp4'' 5), AnimationFinished]) = Some []"
proof -
  let ?evs = "[Command (play_command ''clip.mp4'' 5), AnimationFinished]"
  have v: "map_option (\<lambda>s. (alive s, next_thread s)) (demo_run ?evs) = Some ([0], 1)"
    by code_simp
  then obtain s where s: "demo_run ?evs = Some s" "alive s = [0]" "next_thread s = 1"
    by auto
  from s(1) have "reachable demo_env (Some ''bg.png'') s"
    unfolding reachable_def demo_run_def by blast
  from single_session [OF this, of "''other.mp4''" 3 True] s show ?thesis
    by simp
qed

section \<open>Properties of the command channel\<close>

lemma serve_malformed:
  assumes "payload c = Some data" "data \<noteq> []" "parsed c = None"
  shows "serve_connection c = \<lparr>reply = Some ''ERROR'', socket_closed = True, dispatched = None\<rparr>"
  using assms by (simp add: serve_connection_def)

lemma serve_object:
  assumes "payload c = Some data" "data \<noteq> []" "parsed c = Some (JObject command)"
  shows "serve_connection c =
    \<lparr>reply = Some ''OK'', socket_closed = True, dispatched = Some command\<rparr>"
  using assms by (simp add: serve_connection_def)

lemma serve_empty:
  assumes "payload c = Some []"
  shows "serve_connection c = \<lparr>reply = None, socket_closed = True, dispatched = None\<rparr>"
  using assms by (simp add: serve_connection_def)

lemma object_text_not_empty [simp]: "object_text k v \<noteq> []"
  by (simp add: object_text_def)

text \<open>
  Claim C5, as the code has it.  For a payload that decodes as text and is not empty:
  when \<^verbatim>\<open>json.loads\<close> raises \<^verbatim>\<open>JSONDecodeError\<close> the server replies \<^verbatim>\<open>ERROR\<close>, closes the
  connection and emits no command, so the window is left as it is; when the text parses
  as a JSON object the server emits it, replies \<^verbatim>\<open>OK\<close> and closes the connection.  An
  empty payload gets no reply at all: the connection is closed and nothing is emitted.
\<close>

theorem server_replies:
  assumes "payload c = Some data"
  shows "(data \<noteq> [] \<and> parsed c = None \<longrightarrow>
            serve_connection c =
              \<lparr>reply = Some ''ERROR'', socket_closed = True, dispatched = None\<rparr>
            \<and> deliver e c s = Some s)
       \<and> (\<forall>command. data \<noteq> [] \<and> parsed c = Some (JObject command) \<longrightarrow>
            serve_connection c =
              \<lparr>reply = Some ''OK'', socket_closed = True, dispatched = Some command\<rparr>
            \<and> deliver e c s = handle_ipc_command e command s)
       \<and> (data = [] \<longrightarrow>
            serve_connection c = \<lparr>reply = None, socket_closed = True, dispatched = None\<rparr>
            \<and> deliver e c s = Some s)"
  using assms serve_malformed [of c data] serve_object [of c data] serve_empty [of c]
  by (auto simp add: deliver_def)

text \<open>
  The theorem at the malformed text \<^verbatim>\<open>{broken\<close> and at the text of a \<^verbatim>\<open>STOP\<close> command.
\<close>

theorem server_replies_witness:
  "serve_connection \<lparr>payload = Some ''{broken'', parsed = None\<rparr> =
      \<lparr>reply = Some ''ERROR'', socket_closed = True, dispatched = None\<rparr>
   \<and> deliver demo_env \<lparr>payload = Some ''{broken'', parsed = None\<rparr> (init demo_env None)
       = Some (init demo_env None)
   \<and> serve_connection \<lparr>payload = Some (object_text ''command'' ''STOP''),
         parsed = Some (JObject stop_command)\<rparr> =
      \<lparr>reply = Some ''OK'', socket_closed = True, dispatched = Some stop_command\<rparr>"
  using server_replies [of "\<lparr>payload = Some ''{broken'', parsed = None\<rparr>" "''{broken''"
      demo_env "init demo_env None"]
    server_replies [of "\<lparr>payload = Some (object_text ''command'' ''STOP''),
         parsed = Some (JObject stop_command)\<rparr>" "object_text ''command'' ''STOP''"
      demo_env "init demo_env None"]
  by simp

text \<open>
  Claim C5 as stated has every payload that is not of the expected format answered with
  \<^verbatim>\<open>ERROR\<close> and the connection closed.  An empty payload is answered with nothing, the
  connection being closed.  A text that \<^verbatim>\<open>json.loads\<close> accepts but that is no object, such
  as \<^verbatim>\<open>[1]\<close>, raises no \<^verbatim>\<open>JSONDecodeError\<close>: \<^verbatim>\<open>emit\<close> raises \<^verbatim>\<open>TypeError\<close>, which passes
  the reply and \<^verbatim>\<open>client_socket.close()\<close> by, so it is answered with nothing and the
  connection is left open; and so are bytes that are not UTF-8.
\<close>

theorem no_reply_without_json_error:
  "serve_connection \<lparr>payload = Some [], parsed = None\<rparr> =
      \<lparr>reply = None, socket_closed = True, dispatched = None\<rparr>
   \<and> serve_connection \<lparr>payload = Some ''[1]'', parsed = Some (JArray [JInt 1])\<rparr> =
      \<lparr>reply = None, socket_closed = False, dispatched = None\<rparr>
   \<and> serve_connection \<lparr>payload = None, parsed = None\<rparr> =
      \<lparr>reply = None, socket_closed = False, dispatched = None\<rparr>"
  by (simp add: serve_connection_def)

text \<open>
  Claim C10.  A payload that parses as a JSON object is answered with \<^verbatim>\<open>OK\<close> whatever it
  holds; and when its \<^verbatim>\<open>command\<close> is none of \<^verbatim>\<open>PLAY\<close>, \<^verbatim>\<open>STOP\<close>, \<^verbatim>\<open>EXIT\<close> (or is absent),
  or when it is a \<^verbatim>\<open>PLAY\<close> without a \<^verbatim>\<open>file\<close>, the handler returns the window unchanged,
  every field of it.
\<close>

theorem unknown_command_ignored:
  assumes "payload c = Some data" and "data \<noteq> []" and "parsed c = Some (JObject command)"
    and "map_of command ''command'' \<notin>
           {Some (JString ''PLAY''), Some (JString ''STOP''), Some (JString ''EXIT'')}
         \<or> (map_of command ''command'' = Some (JString ''PLAY'')
             \<and> map_of command ''file'' = None)"
  shows "reply (serve_connection c) = Some ''OK''
       \<and> dispatched (serve_connection c) = Some command
       \<and> handle_ipc_command e command s = Some s
       \<and> deliver e c s = Some s"
proof -
  have h: "handle_ipc_command e command s = Some s"
    using assms(4) by (auto simp add: handle_ipc_command_def Let_def)
  show ?thesis
    using serve_object [OF assms(1-3)] h by (simp add: deliver_def)
qed

text \<open>
  The theorem at a \<^verbatim>\<open>PAUSE\<close> command and at a \<^verbatim>\<open>PLAY\<close> command that names no file.
\<close>

theorem unknown_command_ignored_witness:
  "handle_ipc_command demo_env [(''command'', JString ''PAUSE'')] (init demo_env None)
     = Some (init demo_env None)
   \<and> handle_ipc_command demo_env [(''command'', JString ''PLAY'')] (init demo_env None)
     = Some (init demo_env None)
   \<and> reply (serve_connection \<lparr>payload = Some (object_text ''command'' ''PAUSE''),
        parsed = Some (JObject [(''command'', JString ''PAUSE'')])\<rparr>) = Some ''OK''"
  using unknown_command_ignored [of "\<lparr>payload = Some (object_text ''command'' ''PAUSE''),
        parsed = Some (JObject [(''command'', JString ''PAUSE'')])\<rparr>"
      "object_text ''command'' ''PAUSE''" "[(''command'', JString ''PAUSE'')]" demo_env
      "init demo_env None"]
    unknown_command_ignored [of "\<lparr>payload = Some (object_text ''command'' ''PLAY''),
        parsed = Some (JObject [(''command'', JString ''PLAY'')])\<rparr>"
      "object_text ''command'' ''PLAY''" "[(''command'', JString ''PLAY'')]" demo_env
      "init demo_env None"]
  by simp

subsection \<open>The media timer\<close>






section \<open>Properties of a display that fails\<close>

lemma display_image_fails:
  assumes "\<not> displayable e b p"
  shows "(display_image e p d b s)\<lparr>trace := trace s\<rparr> = s"
    and "\<exists>msgs. trace (display_image e p d b s) =
           trace s @ map Print msgs @ [Print (ErrorDisplayingImageMsg p)]"
    and "pixmap (display_image e p d b s) = pixmap s"
    and "media_timer (display_image e p d b s) = media_timer s"
proof -
  let ?screen = "effective_screen (screen_geometry e) (label_size e)"
  consider (closed_file) "image_open e p = None"
    | (no_scale) img err where "image_open e p = Some img"
        "display_image_size b ?screen img = Inl err"
    | (no_pixel) img new where "image_open e p = Some img"
        "display_image_size b ?screen img = Inr new" "fst new < 1 \<or> snd new < 1"
    using assms by (auto simp add: displayable_def split: option.splits sum.splits)
  then have "display_image e p d b s = emit (Print (ErrorDisplayingImageMsg p)) s
      \<or> (\<exists>m. display_image e p d b s =
            emit (Print (ErrorDisplayingImageMsg p)) (emit (Print m) s))"
  proof cases
    case closed_file
    then show ?thesis by (simp add: display_image_def)
  next
    case no_scale
    then show ?thesis by (simp add: display_image_def)
  next
    case no_pixel
    then have "display_image e p d b s = emit (Print (ErrorDisplayingImageMsg p))
        (emit (Print (ImageSizeMsg img new ?screen b)) s)"
      by (simp add: display_image_def Let_def)
    then show ?thesis by blast
  qed
  then show "(display_image e p d b s)\<lparr>trace := trace s\<rparr> = s"
    and "pixmap (display_image e p d b s) = pixmap s"
    and "media_timer (display_image e p d b s) = media_timer s"
    and "\<exists>msgs. trace (display_image e p d b s) =
           trace s @ map Print msgs @ [Print (ErrorDisplayingImageMsg p)]"
  proof -
    assume a: "display_image e p d b s = emit (Print (ErrorDisplayingImageMsg p)) s
      \<or> (\<exists>m. display_image e p d b s =
            emit (Print (ErrorDisplayingImageMsg p)) (emit (Print m) s))"
    then show "(display_image e p d b s)\<lparr>trace := trace s\<rparr> = s"
      by (auto simp add: emit_def)
    from a show "pixmap (display_image e p d b s) = pixmap s"
      by auto
    from a show "media_timer (display_image e p d b s) = media_timer s"
      by auto
    from a show "\<exists>msgs. trace (display_image e p d b s) =
           trace s @ map Print msgs @ [Print (ErrorDisplayingImageMsg p)]"
    proof
      assume "display_image e p d b s = emit (Print (ErrorDisplayingImageMsg p)) s"
      then have "trace (display_image e p d b s) =
          trace s @ map Print [] @ [Print (ErrorDisplayingImageMsg p)]"
        by simp
      then show ?thesis by blast
    next
      assume "\<exists>m. display_image e p d b s =
            emit (Print (ErrorDisplayingImageMsg p)) (emit (Print m) s)"
      then obtain m where "display_image e p d b s =
            emit (Print (ErrorDisplayingImageMsg p)) (emit (Print m) s)" ..
      then have "trace (display_image e p d b s) =
          trace s @ map Print [m] @ [Print (ErrorDisplayingImageMsg p)]"
        by simp
      then show ?thesis by blast
    qed
  qed
qed

lemma play_media_missing:
  "\<not> path_exists e f \<Longrightarrow> play_media e f d s = emit (Print (FileNotFoundMsg f)) s"
  by (simp add: play_media_def)

lemma play_media_undisplayable:
  assumes "path_exists e f" "suffix_lower e f \<in> set image_suffixes"
    "\<not> displayable e False f"
  shows "pixmap (play_media e f d s) = pixmap s"
    and "media_timer (play_media e f d s) = None"
    and "current_file (play_media e f d s) = Some f"
  using assms display_image_fails(3,4) [OF assms(3)]
  by (simp_all add: play_media_def Let_def)

lemma play_media_stops_thread:
  assumes "consistent s" "path_exists e f" "0 < opacity s"
  shows "alive (play_media e f d s) = []"
proof -
  let ?s3 = "(emit (Print (PlayingMsg f d)) s)\<lparr>media_timer := None,
      current_file := Some f\<rparr>"
  let ?p = "Some (PendingPlay f d (suffix_lower e f \<in> set image_suffixes))"
  have "alive (fade_out (?s3\<lparr>pending_command := ?p\<rparr>)) = []"
  proof (cases "is_transitioning s")
    case True
    with assms(1) show ?thesis by (simp add: fade_out_again consistent_def)
  next
    case False
    have "alive (stop_video_thread (?s3\<lparr>pending_command := ?p\<rparr>)) = []"
      using assms(1) by (intro stop_video_thread_none) (simp add: consistent_def)
    with False show ?thesis by (simp add: fade_out_first(6))
  qed
  with assms(2,3) show ?thesis by (simp add: play_media_def Let_def)
qed

lemma on_fade_finished_undisplayable:
  assumes "pending_command s = Some (PendingPlay f d True)" "\<not> displayable e False f"
  shows "pixmap (on_fade_finished e s) = pixmap s"
    and "media_timer (on_fade_finished e s) = media_timer s"
    and "current_file (on_fade_finished e s) = current_file s"
    and "alive (on_fade_finished e s) = alive s"
  using assms(1) display_image_fails(3,4) [OF assms(2)]
  by (simp_all add: on_fade_finished_def Let_def)

text \<open>
  Claim C9, as the code has it.  A \<^verbatim>\<open>PLAY\<close> of a file that does not exist is logged and
  changes nothing.  A \<^verbatim>\<open>display_image\<close> that fails (the file does not open as a picture, or
  the picture cannot be scaled to at least one pixel) is logged and changes nothing
  either: it leaves every field of the window as it was and only prints, the last line
  being the error.  But a \<^verbatim>\<open>PLAY\<close> of an existing picture that then fails to display is no
  no-op: \<^verbatim>\<open>play_media\<close> has by then stopped the media timer and replaced the current file,
  and, the opacity being positive, its fade-out has stopped and joined the thread that
  ran; only the pixmap stays, also when the fade-out ends and the display is attempted.
\<close>

theorem failed_display_logged:
  assumes "reachable e background s"
  shows "(\<not> path_exists e f \<longrightarrow> play_media e f d s = emit (Print (FileNotFoundMsg f)) s)
       \<and> (\<not> displayable e b f \<longrightarrow>
            (display_image e f d b s)\<lparr>trace := trace s\<rparr> = s
            \<and> (\<exists>msgs. trace (display_image e f d b s) =
                  trace s @ map Print msgs @ [Print (ErrorDisplayingImageMsg f)]))
       \<and> (path_exists e f \<and> suffix_lower e f \<in> set image_suffixes
            \<and> \<not> displayable e False f \<longrightarrow>
            pixmap (play_media e f d s) = pixmap s
            \<and> media_timer (play_media e f d s) = None
            \<and> current_file (play_media e f d s) = Some f
            \<and> (0 < opacity s \<longrightarrow> alive (play_media e f d s) = []))
       \<and> (pending_command s = Some (PendingPlay f d True) \<and> \<not> displayable e False f \<longrightarrow>
            pixmap (on_fade_finished e s) = pixmap s
            \<and> media_timer (on_fade_finished e s) = media_timer s
            \<and> current_file (on_fade_finished e s) = current_file s
            \<and> alive (on_fade_finished e s) = alive s)"
proof -
  have c: "consistent s" using assms by (rule reachable_consistent)
  have p1: "\<not> path_exists e f \<longrightarrow> play_media e f d s = emit (Print (FileNotFoundMsg f)) s"
    by (simp add: play_media_missing)
  have p2: "\<not> displayable e b f \<longrightarrow>
            (display_image e f d b s)\<lparr>trace := trace s\<rparr> = s
            \<and> (\<exists>msgs. trace (display_image e f d b s) =
                  trace s @ map Print msgs @ [Print (ErrorDisplayingImageMsg f)])"
    using display_image_fails(1,2) [where e = e and b = b and p = f and d = d and s = s]
    by (intro impI conjI)
  have p3: "path_exists e f \<and> suffix_lower e f \<in> set image_suffixes
            \<and> \<not> displayable e False f \<longrightarrow>
            pixmap (play_media e f d s) = pixmap s
            \<and> media_timer (play_media e f d s) = None
            \<and> current_file (play_media e f d s) = Some f
            \<and> (0 < opacity s \<longrightarrow> alive (play_media e f d s) = [])"
    using play_media_undisplayable [where e = e and f = f and d = d and s = s]
      play_media_stops_thread [OF c, where e = e and f = f and d = d]
    by (intro impI conjI) (elim conjE, assumption+)+
  have p4: "pending_command s = Some (PendingPlay f d True) \<and> \<not> displayable e False f \<longrightarrow>
            pixmap (on_fade_finished e s) = pixmap s
            \<and> media_timer (on_fade_finished e s) = media_timer s
            \<and> current_file (on_fade_finished e s) = current_file s
            \<and> alive (on_fade_finished e s) = alive s"
    using on_fade_finished_undisplayable [where e = e and f = f and d = d and s = s]
    by (intro impI conjI) (elim conjE, assumption+)+
  from p1 p2 p3 p4 show ?thesis by (intro conjI)
qed

text \<open>
  The theorem in the demo installation, at its start: \<^verbatim>\<open>missing.png\<close> does not exist, and
  \<^verbatim>\<open>broken.png\<close> exists and is no picture.
\<close>

theorem failed_display_logged_witness:
  "play_media demo_env ''missing.png'' 2 (init demo_env None) =
     emit (Print (FileNotFoundMsg ''missing.png'')) (init demo_env None)
   \<and> (display_image demo_env ''broken.png'' 2 False (init demo_env None))\<lparr>trace := []\<rparr> =
       init demo_env None
   \<and> media_timer (play_media demo_env ''broken.png'' 2 (init demo_env None)) = None
   \<and> current_file (play_media demo_env ''broken.png'' 2 (init demo_env None)) =
       Some ''broken.png''
   \<and> alive (play_media demo_env ''broken.png'' 2 (init demo_env None)) = []"
proof -
  have "run_events demo_env (init demo_env None) [] = Some (init demo_env None)"
    by simp
  then have r: "reachable demo_env None (init demo_env None)"
    unfolding reachable_def by blast
  have a: "\<not> path_exists demo_env ''missing.png''"
    by (simp add: demo_env_def)
  have b: "\<not> displayable demo_env False ''broken.png''"
    by (simp add: displayable_def demo_env_def)
  have c: "path_exists demo_env ''broken.png''"
    "suffix_lower demo_env ''broken.png'' \<in> set image_suffixes"
    by (simp_all add: demo_env_def image_suffixes_def)
  have d: "trace (init demo_env None) = []" "0 < opacity (init demo_env None)"
    by (simp_all add: init_def)
  show ?thesis
    using failed_display_logged [OF r, where f = "''missing.png''" and d = 2]
      failed_display_logged [OF r, where f = "''broken.png''" and d = 2 and b = False]
      a b c d
    by simp
qed

text \<open>
  Claim C9 as stated has a failed display leave the current content, the timer and the
  running session as they were.  In the demo installation \<^verbatim>\<open>clip.mp4\<close> is playing, thread 0
  alive and a frame on the screen, when \<^verbatim>\<open>broken.png\<close> is played: the thread is stopped
  and the current file replaced, and after the fade-out the display fails; the frame
  stays on the screen.  And while \<^verbatim>\<open>photo.png\<close> is shown with its timer running for 100
  seconds, the same command stops the timer.
\<close>

theorem failed_play_stops_session:
  "map_option (\<lambda>s. (current_file s, alive s, pixmap s))
      (demo_run [Command (play_command ''clip.mp4'' 5), AnimationFinished, AnimationFinished,
                 FrameDelivered (Frame 3 (640, 480))])
     = Some (Some ''clip.mp4'', [0], Some (FramePixmap (Frame 3 (640, 480)) (960, 720)))
   \<and> map_option (\<lambda>s. (current_file s, alive s, pixmap s))
      (demo_run [Command (play_command ''clip.mp4'' 5), AnimationFinished, AnimationFinished,
                 FrameDelivered (Frame 3 (640, 480)),
                 Command (play_command ''broken.png'' 2), AnimationFinished])
     = Some (Some ''broken.png'', [], Some (FramePixmap (Frame 3 (640, 480)) (960, 720)))
   \<and> map_option media_timer
      (demo_run [Command (play_command ''photo.png'' 100), AnimationFinished,
                 AnimationFinished])
     = Some (Some 100000)
   \<and> map_option media_timer
      (demo_run [Command (play_command ''photo.png'' 100), AnimationFinished,
                 AnimationFinished, Command (play_command ''broken.png'' 2)])
     = Some None"
  by code_simp

section \<open>Properties of the fade-out guard\<close>

lemma stop_playback_fields [simp]:
  "background_image (stop_playback e r s) = background_image s"
  "closed (stop_playback e r s) = closed s"
  "media_timer (stop_playback e r s) = None"
  by (simp_all add: stop_playback_def Let_def)

lemma has_background_stop_playback [simp]:
  "has_background e (stop_playback e' r s) = has_background e s"
  by (simp add: has_background_def)

lemma step_stop_command:
  "\<not> closed s \<Longrightarrow> step e s (Command stop_command) = Some (stop_playback e True s)"
  by (simp add: step_def handle_ipc_command_def stop_command_def)

lemma fade_outs_emit [simp]:
  "fade_outs (emit x s) = fade_outs s + (if x = FadeOut then 1 else 0)"
  by (simp add: fade_outs_def)

lemma fade_outs_stop_video_thread [simp]:
  "fade_outs (stop_video_thread s) = fade_outs s"
  by (simp add: fade_outs_def stop_video_thread_def emit_def split: option.splits)

lemma fade_outs_fade_out:
  "fade_outs (fade_out s) = fade_outs s + (if is_transitioning s then 0 else 1)"
proof (cases "is_transitioning s")
  case True
  then show ?thesis by (simp add: fade_out_again)
next
  case False
  have "fade_outs (fade_out s) = fade_outs (stop_video_thread (emit FadeOut s))"
    using fade_out_first(8) [OF False] by (simp add: fade_outs_def)
  with False show ?thesis by simp
qed

lemma stop_when_transitioning:
  assumes "consistent s" "is_transitioning s"
  shows "fade_outs (stop_playback e True s) = fade_outs s"
    and "is_transitioning (stop_playback e True s)"
    and "anim_running (stop_playback e True s) = anim_running s"
    and "anim_start (stop_playback e True s) = anim_start s"
    and "anim_end (stop_playback e True s) = anim_end s"
    and "anim_time (stop_playback e True s) = anim_time s"
    and "opacity (stop_playback e True s) = opacity s"
proof -
  let ?s2 = "(emit (Print StoppingMsg) s)\<lparr>media_timer := None\<rparr>"
  have a: "alive ?s2 = []" using assms by (simp add: consistent_def)
  have s3: "stop_video_thread ?s2 = ?s2"
    using a by (rule stop_video_thread_idle)
  have f: "fade_out (?s2\<lparr>pending_command := Some PendingBackground\<rparr>) =
      ?s2\<lparr>pending_command := Some PendingBackground\<rparr>"
    using assms(2) by (intro fade_out_again) simp
  have e: "stop_playback e True s =
      (if has_background e s then ?s2\<lparr>pending_command := Some PendingBackground\<rparr> else ?s2)"
    by (simp add: stop_playback_def Let_def s3 f has_background_def)
  have g: "fade_outs ?s2 = fade_outs s"
    "fade_outs (?s2\<lparr>pending_command := Some PendingBackground\<rparr>) = fade_outs s"
    by (simp_all add: fade_outs_def)
  show "fade_outs (stop_playback e True s) = fade_outs s"
    using g by (simp add: e)
  show "is_transitioning (stop_playback e True s)"
    using assms(2) by (simp add: e)
  show "anim_running (stop_playback e True s) = anim_running s"
    "anim_start (stop_playback e True s) = anim_start s"
    "anim_end (stop_playback e True s) = anim_end s"
    "anim_time (stop_playback e True s) = anim_time s"
    "opacity (stop_playback e True s) = opacity s"
    by (simp_all add: e)
qed

lemma stop_when_steady:
  assumes "\<not> is_transitioning s"
  shows "fade_outs (stop_playback e True s) =
      fade_outs s + (if has_background e s then 1 else 0)"
    and "is_transitioning (stop_playback e True s) = has_background e s"
    and "has_background e s \<Longrightarrow> fading_out (stop_playback e True s)"
proof -
  let ?s3 = "stop_video_thread ((emit (Print StoppingMsg) s)\<lparr>media_timer := None\<rparr>)"
  have n: "\<not> is_transitioning (?s3\<lparr>pending_command := Some PendingBackground\<rparr>)"
    using assms by simp
  have e: "stop_playback e True s =
      (if has_background e s then fade_out (?s3\<lparr>pending_command := Some PendingBackground\<rparr>)
       else ?s3)"
    by (simp add: stop_playback_def Let_def has_background_def)
  have g: "fade_outs ?s3 = fade_outs s"
    "fade_outs (?s3\<lparr>pending_command := Some PendingBackground\<rparr>) = fade_outs s"
    by (simp_all add: fade_outs_def stop_video_thread_def emit_def split: option.splits)
  show "fade_outs (stop_playback e True s) =
      fade_outs s + (if has_background e s then 1 else 0)"
    using g n by (simp add: e fade_outs_fade_out)
  show "is_transitioning (stop_playback e True s) = has_background e s"
    using assms fade_out_first(1) [OF n] by (simp add: e)
  show "fading_out (stop_playback e True s)" if "has_background e s"
    using that fade_out_first(2,4) [OF n] by (simp add: e fading_out_def)
qed

lemma two_stops:
  assumes "consistent s" "\<not> closed s"
  shows "\<exists>s'. run_events e s [Command stop_command, Command stop_command] = Some s'
       \<and> fade_outs s' =
           fade_outs s + (if is_transitioning s \<or> \<not> has_background e s then 0 else 1)
       \<and> (is_transitioning s \<longrightarrow>
            anim_running s' = anim_running s \<and> anim_start s' = anim_start s
            \<and> anim_end s' = anim_end s \<and> anim_time s' = anim_time s
            \<and> opacity s' = opacity s)
       \<and> (\<not> is_transitioning s \<and> has_background e s \<longrightarrow> fading_out s')"
proof -
  let ?s1 = "stop_playback e True s"
  let ?s2 = "stop_playback e True ?s1"
  have c1: "consistent ?s1" using assms(1) by (rule consistent_stop_playback)
  have r: "run_events e s [Command stop_command, Command stop_command] = Some ?s2"
    using assms(2) by (simp add: step_stop_command)
  show ?thesis
  proof (cases "is_transitioning s")
    case True
    note a = stop_when_transitioning [OF assms(1) True, of e]
    note b = stop_when_transitioning [OF c1 a(2), of e]
    from True r a b show ?thesis by simp
  next
    case False
    note a = stop_when_steady [OF False, of e]
    show ?thesis
    proof (cases "has_background e s")
      case True
      with a have t: "is_transitioning ?s1" "fading_out ?s1" by simp_all
      note b = stop_when_transitioning [OF c1 t(1), of e]
      from t(2) b have "fading_out ?s2" by (simp add: fading_out_def)
      with False True r a(1) b(1) show ?thesis by simp
    next
      case n: False
      with a have t: "\<not> is_transitioning ?s1" by simp
      note b = stop_when_steady [OF t, of e]
      from False n r a(1) b(1) show ?thesis by simp
    qed
  qed
qed

text \<open>
  Claim C6.  In a state the window can reach, while a fade-out animation is in flight
  \<^verbatim>\<open>is_transitioning\<close> is set, so \<^verbatim>\<open>fade_out\<close> returns at its first line and changes nothing.
  Two \<^verbatim>\<open>STOP\<close> commands in succession start one fade-out animation when none is in flight
  and a background exists, and none otherwise; when a fade-out is in flight they leave
  the animation as it is: its start and end values, its current time and the opacity.
\<close>

theorem fade_out_guard:
  assumes "reachable e background s" and "\<not> closed s"
  shows "(fading_out s \<longrightarrow> is_transitioning s \<and> fade_out s = s)
       \<and> (\<exists>s'. run_events e s [Command stop_command, Command stop_command] = Some s'
            \<and> fade_outs s' =
                fade_outs s + (if is_transitioning s \<or> \<not> has_background e s then 0 else 1)
            \<and> (fading_out s \<longrightarrow>
                 fading_out s' \<and> anim_start s' = anim_start s \<and> anim_end s' = anim_end s
                 \<and> anim_time s' = anim_time s \<and> opacity s' = opacity s)
            \<and> (\<not> is_transitioning s \<and> has_background e s \<longrightarrow> fading_out s'))"
proof -
  have c: "consistent s" using assms(1) by (rule reachable_consistent)
  have t: "is_transitioning s" if "fading_out s"
    using that c by (auto simp add: fading_out_def consistent_def)
  from two_stops [OF c assms(2), of e] obtain s' where s':
    "run_events e s [Command stop_command, Command stop_command] = Some s'"
    "fade_outs s' =
       fade_outs s + (if is_transitioning s \<or> \<not> has_background e s then 0 else 1)"
    "is_transitioning s \<longrightarrow>
       anim_running s' = anim_running s \<and> anim_start s' = anim_start s
       \<and> anim_end s' = anim_end s \<and> anim_time s' = anim_time s \<and> opacity s' = opacity s"
    "\<not> is_transitioning s \<and> has_background e s \<longrightarrow> fading_out s'"
    by blast
  have k: "fading_out s \<longrightarrow>
        fading_out s' \<and> anim_start s' = anim_start s \<and> anim_end s' = anim_end s
        \<and> anim_time s' = anim_time s \<and> opacity s' = opacity s"
    using t s'(3) by (auto simp add: fading_out_def)
  have g: "fading_out s \<longrightarrow> is_transitioning s \<and> fade_out s = s"
    using t by (simp add: fade_out_again)
  from g s'(1,2,4) k show ?thesis by blast
qed

text \<open>
  The theorem in the demo installation, while the fade-out that \<^verbatim>\<open>PLAY clip.mp4\<close> started
  is in flight: it is the first fade-out, and after two \<^verbatim>\<open>STOP\<close> commands it is still the
  only one.
\<close>

theorem fade_out_guard_witness:
  "map_option (\<lambda>s. (fading_out s, fade_outs s, fade_out s = s))
      (demo_run [Command (play_command ''clip.mp4'' 5)]) = Some (True, 1, True)
   \<and> map_option (\<lambda>s. (fading_out s, fade_outs s))
      (demo_run [Command (play_command ''clip.mp4'' 5), Command stop_command,
                 Command stop_command]) = Some (True, 1)"
proof -
  let ?pre = "[Command (play_command ''clip.mp4'' 5)]"
  let ?stops = "[Command stop_command, Command stop_command]"
  have v: "map_option (\<lambda>s. (fading_out s, fade_outs s, is_transitioning s, closed s))
      (demo_run ?pre) = Some (True, 1, True, False)"
    by code_simp
  then obtain s where s: "demo_run ?pre = Some s" "fading_out s" "fade_outs s = 1"
      "is_transitioning s" "\<not> closed s"
    by auto
  from s(1) have r: "reachable demo_env (Some ''bg.png'') s"
    unfolding reachable_def demo_run_def by blast
  from fade_out_guard [OF r s(5)] s(2-4) obtain s' where s':
    "fade_out s = s" "run_events demo_env s ?stops = Some s'" "fade_outs s' = 1"
    "fading_out s'"
    by auto
  from s(1) s'(2) run_events_append [of demo_env _ ?pre ?stops]
  have "demo_run (?pre @ ?stops) = Some s'"
    by (simp add: demo_run_def del: run_events.simps)
  with s s' show ?thesis by simp
qed

section \<open>Properties of the pending transition\<close>

lemma shown_append [simp]: "shown (xs @ ys) = shown xs @ shown ys"
  by (simp add: shown_def List.map_filter_def)

lemma shown_simps [simp]:
  "shown [] = []"
  "shown (Print m # xs) = shown xs"
  "shown (FadeOut # xs) = shown xs"
  "shown (FadeIn # xs) = shown xs"
  "shown (StopThread t # xs) = shown xs"
  "shown (StartThread t f d # xs) = f # shown xs"
  "shown (SetPixmap (ImagePixmap f sz) # xs) = f # shown xs"
  "shown (SetPixmap (FramePixmap fr sz) # xs) = shown xs"
  by (simp_all add: shown_def List.map_filter_def)

lemma shown_stop_video_thread [simp]: "shown (trace (stop_video_thread s)) = shown (trace s)"
  by (simp add: stop_video_thread_def split: option.splits)

lemma fade_out_transitioning [simp]: "is_transitioning (fade_out s)"
  by (cases "is_transitioning s") (simp_all add: fade_out_again fade_out_first(1))

lemma shown_fade_out [simp]: "shown (trace (fade_out s)) = shown (trace s)"
  by (cases "is_transitioning s") (simp_all add: fade_out_again fade_out_first(8))

lemma shown_display_video [simp]:
  "shown (trace (display_video f d s)) = shown (trace s) @ [f]"
  by simp

lemma shown_display_image [simp]:
  "shown (trace (display_image e f d b s)) =
     shown (trace s) @ (if displayable e b f then [f] else [])"
proof (cases "displayable e b f")
  case False
  from display_image_fails(2) [OF False, of d s] obtain msgs where
    "trace (display_image e f d b s) =
       trace s @ map Print msgs @ [Print (ErrorDisplayingImageMsg f)]"
    by blast
  moreover have "shown (map Print msgs) = []"
    by (induction msgs) simp_all
  ultimately show ?thesis using False by simp
next
  case True
  then obtain img new where d: "image_open e f = Some img"
    "display_image_size b (effective_screen (screen_geometry e) (label_size e)) img = Inr new"
    "1 \<le> fst new" "1 \<le> snd new"
    by (auto simp add: displayable_def split: option.splits sum.splits)
  then have n: "\<not> (fst new < 1 \<or> snd new < 1)" by simp
  show ?thesis
    using True d(1,2) n by (simp add: display_image_def Let_def del: not_less)
qed

lemma play_while_visible:
  assumes "consistent s" "\<not> closed s" "path_exists e f" "f \<noteq> []" "0 < opacity s"
  shows "step e s (Command (play_command f d)) = Some (play_media e f d s)"
    and "consistent (play_media e f d s)"
    and "\<not> closed (play_media e f d s)"
    and "is_transitioning (play_media e f d s)"
    and "pending_command (play_media e f d s) =
           Some (PendingPlay f d (suffix_lower e f \<in> set image_suffixes))"
    and "current_file (play_media e f d s) = Some f"
    and "shown (trace (play_media e f d s)) = shown (trace s)"
proof -
  show "step e s (Command (play_command f d)) = Some (play_media e f d s)"
    using assms(2,4) by (simp add: step_def handle_ipc_command_def play_command_def)
  show "consistent (play_media e f d s)"
    using assms(1) by (rule consistent_play_media)
  show "\<not> closed (play_media e f d s)"
    "is_transitioning (play_media e f d s)"
    "pending_command (play_media e f d s) =
           Some (PendingPlay f d (suffix_lower e f \<in> set image_suffixes))"
    "current_file (play_media e f d s) = Some f"
    "shown (trace (play_media e f d s)) = shown (trace s)"
    using assms(2,3,5) by (simp_all add: play_media_def Let_def)
qed

lemma shown_update_frame [simp]: "shown (trace (update_frame e f s)) = shown (trace s)"
  by (simp add: update_frame_def Let_def split: sum.splits option.splits)

lemma fade_outs_update_frame [simp]: "fade_outs (update_frame e f s) = fade_outs s"
  by (simp add: fade_outs_def update_frame_def Let_def emit_def split: sum.splits option.splits)

lemma shown_on_video_finished [simp]:
  "shown (trace (on_video_finished e lf s)) = shown (trace s)"
  by (simp add: on_video_finished_def split: option.splits)

lemma fade_outs_on_video_finished [simp]:
  "fade_outs (on_video_finished e lf s) = fade_outs s"
  by (simp add: on_video_finished_def split: option.splits)

lemma passing_step:
  assumes "step e s ev = Some s'" "passing ev"
  shows "closed s' = closed s" and "is_transitioning s' = is_transitioning s"
    and "pending_command s' = pending_command s" and "current_file s' = current_file s"
    and "shown (trace s') = shown (trace s)" and "fade_outs s' = fade_outs s"
proof -
  have "closed s' = closed s \<and> is_transitioning s' = is_transitioning s
      \<and> pending_command s' = pending_command s \<and> current_file s' = current_file s
      \<and> shown (trace s') = shown (trace s) \<and> fade_outs s' = fade_outs s"
  proof (cases ev)
    case (AnimationTick t)
    with assms(1) have "s' = animation_tick t s"
      by (simp add: step_def split: if_splits)
    then show ?thesis by (simp add: fade_outs_def)
  next
    case (FrameDelivered f)
    with assms(1) have "s' = update_frame e f s"
      by (simp add: step_def split: if_splits)
    then show ?thesis by simp
  next
    case (FinishedDelivered lf)
    with assms(1) have "s' = on_video_finished e lf s"
      by (simp add: step_def split: if_splits)
    then show ?thesis by simp
  next
    case (ThreadReturns t)
    with assms(1) have "s' = s\<lparr>alive := removeAll t (alive s)\<rparr>"
      by (simp add: step_def split: if_splits)
    then show ?thesis by (simp add: fade_outs_def)
  next
    case MediaTimeout
    with assms(1) have "s' = s\<lparr>media_timer := None\<rparr>"
      by (simp add: step_def on_media_timeout_def split: if_splits)
    then show ?thesis by (simp add: fade_outs_def)
  qed (use assms(2) in simp_all)
  then show "closed s' = closed s" and "is_transitioning s' = is_transitioning s"
    and "pending_command s' = pending_command s" and "current_file s' = current_file s"
    and "shown (trace s') = shown (trace s)" and "fade_outs s' = fade_outs s"
    by simp_all
qed

lemma passing_run_events:
  assumes "run_events e s evs = Some s'" "list_all passing evs" "consistent s"
  shows "consistent s' \<and> closed s' = closed s \<and> is_transitioning s' = is_transitioning s
      \<and> pending_command s' = pending_command s \<and> current_file s' = current_file s
      \<and> shown (trace s') = shown (trace s) \<and> fade_outs s' = fade_outs s"
  using assms
proof (induction evs arbitrary: s)
  case Nil
  then show ?case by simp
next
  case (Cons ev evs)
  from Cons.prems(1) obtain s1 where s1: "step e s ev = Some s1"
      "run_events e s1 evs = Some s'"
    by (auto split: option.splits)
  from Cons.prems(2) have q: "passing ev" "list_all passing evs" by simp_all
  have c1: "consistent s1" using Cons.prems(3) s1(1) by (rule consistent_step)
  from passing_step [OF s1(1) q(1)] Cons.IH [OF s1(2) q(2) c1]
  show ?case by simp
qed

lemma finish_pending_play:
  assumes "consistent s" "\<not> closed s" "pending_command s = Some (PendingPlay f d img)"
  shows "\<exists>s'. step e s AnimationFinished = Some s'
       \<and> pending_command s' = None \<and> \<not> is_transitioning s'
       \<and> current_file s' = current_file s
       \<and> shown (trace s') =
           shown (trace s) @ (if img \<longrightarrow> displayable e False f then [f] else [])"
proof -
  from assms(1,3) have r: "anim_running s" by (auto simp add: consistent_def)
  let ?s' = "on_fade_finished e (animation_end s)"
  have "step e s AnimationFinished = Some ?s'"
    using assms(2) r by (simp add: step_def)
  moreover have "pending_command ?s' = None" "\<not> is_transitioning ?s'"
    "current_file ?s' = current_file s"
    "shown (trace ?s') =
       shown (trace s) @ (if img \<longrightarrow> displayable e False f then [f] else [])"
    using assms(3) by (simp_all add: on_fade_finished_def Let_def)
  ultimately show ?thesis by blast
qed

text \<open>
  Claim C2, as the code has it.  From a state the window can reach, with the opacity
  positive, \<^verbatim>\<open>PLAY a\<close> for an existing file leaves a fade-out in flight with \<open>a\<close> pending, also
  after any events other than commands, the end of the animation, the startup display
  and a quit key (steps of the animation, signals and returns of video threads).  A
  \<^verbatim>\<open>PLAY b\<close> for an existing file that arrives then replaces the pending request by \<open>b\<close> and
  starts no second fade-out; after any further such events the animation can end, and
  then nothing is pending, the current file is \<open>b\<close>, and what has been put on the screen
  since the first command is \<open>b\<close> alone (nothing at all when \<open>b\<close> is a picture that fails to
  display): \<open>a\<close> has not been shown.
\<close>

theorem pending_overwritten:
  assumes "reachable e background s" and "0 < opacity s"
    and "path_exists e a" and "a \<noteq> []" and "path_exists e b" and "b \<noteq> []"
    and "list_all passing evs1" and "list_all passing evs2"
    and "run_events e s (Command (play_command a da) # evs1) = Some s1"
    and "run_events e s1 (Command (play_command b db) # evs2) = Some s2"
  shows "fading_out s1
    \<and> pending_command s1 = Some (PendingPlay a da (suffix_lower e a \<in> set image_suffixes))
    \<and> fading_out s2
    \<and> pending_command s2 = Some (PendingPlay b db (suffix_lower e b \<in> set image_suffixes))
    \<and> fade_outs s2 = fade_outs s1
    \<and> (\<exists>s'. step e s2 AnimationFinished = Some s'
          \<and> pending_command s' = None
          \<and> current_file s' = Some b
          \<and> shown (trace s') =
              shown (trace s) @
                (if suffix_lower e b \<in> set image_suffixes \<longrightarrow> displayable e False b then [b]
                 else []))"
proof -
  let ?ia = "suffix_lower e a \<in> set image_suffixes"
  let ?ib = "suffix_lower e b \<in> set image_suffixes"
  have c: "consistent s" using assms(1) by (rule reachable_consistent)
  have n: "\<not> closed s"
    using assms(9) by (auto simp add: step_def split: if_splits)
  let ?sa = "play_media e a da s"
  note pa = play_while_visible [OF c n assms(3,4,2), of da]
  from assms(9) pa(1) have ra: "run_events e ?sa evs1 = Some s1" by simp
  note k1 = passing_run_events [OF ra assms(7) pa(2)]
  from k1 pa have s1: "consistent s1" "\<not> closed s1" "is_transitioning s1"
    "pending_command s1 = Some (PendingPlay a da ?ia)" "shown (trace s1) = shown (trace s)"
    by simp_all
  have f1: "fading_out s1" "0 < opacity s1"
    using s1(1,3) by (simp_all add: consistent_def fading_out_def)
  let ?sb = "play_media e b db s1"
  note pb = play_while_visible [OF s1(1,2) assms(5,6) f1(2), of db]
  have g: "fade_outs ?sb = fade_outs s1"
    using assms(5) f1(2) s1(3)
    by (simp add: play_media_def Let_def fade_out_again) (simp add: fade_outs_def)
  from assms(10) pb(1) have rb: "run_events e ?sb evs2 = Some s2" by simp
  note k2 = passing_run_events [OF rb assms(8) pb(2)]
  from k2 pb g s1(5) have s2: "consistent s2" "\<not> closed s2" "is_transitioning s2"
    "pending_command s2 = Some (PendingPlay b db ?ib)" "current_file s2 = Some b"
    "shown (trace s2) = shown (trace s)" "fade_outs s2 = fade_outs s1"
    by simp_all
  have f2: "fading_out s2"
    using s2(1,3) by (simp add: consistent_def fading_out_def)
  from finish_pending_play [OF s2(1,2,4), of e] obtain s' where s':
    "step e s2 AnimationFinished = Some s'" "pending_command s' = None"
    "current_file s' = current_file s2"
    "shown (trace s') =
       shown (trace s2) @ (if ?ib \<longrightarrow> displayable e False b then [b] else [])"
    by blast
  from s' s2(5,6) have "\<exists>s'. step e s2 AnimationFinished = Some s'
          \<and> pending_command s' = None
          \<and> current_file s' = Some b
          \<and> shown (trace s') =
              shown (trace s) @ (if ?ib \<longrightarrow> displayable e False b then [b] else [])"
    by simp
  with f1(1) s1(4) f2 s2(4,7) show ?thesis by simp
qed

text \<open>
  The theorem in the demo installation, at its start: \<^verbatim>\<open>clip.mp4\<close> is played, the animation
  steps to 50 ms, \<^verbatim>\<open>photo.png\<close> is played, the animation steps to 100 ms and ends.  Only
  \<^verbatim>\<open>photo.png\<close> has been shown.
\<close>

theorem pending_overwritten_witness:
  "map_option (\<lambda>s. (pending_command s, current_file s, shown (trace s)))
      (demo_run [Command (play_command ''clip.mp4'' 5), AnimationTick 50,
                 Command (play_command ''photo.png'' 2), AnimationTick 100,
                 AnimationFinished])
     = Some (None, Some ''photo.png'', [''photo.png''])"
proof -
  let ?s = "init demo_env (Some ''bg.png'')"
  let ?e1 = "[Command (play_command ''clip.mp4'' 5), AnimationTick 50]"
  let ?e2 = "[Command (play_command ''photo.png'' 2), AnimationTick 100]"
  have "run_events demo_env ?s [] = Some ?s" by simp
  then have r: "reachable demo_env (Some ''bg.png'') ?s"
    unfolding reachable_def by blast
  have i: "0 < opacity ?s" "trace ?s = []"
    by (simp_all add: init_def)
  have p: "path_exists demo_env ''clip.mp4''" "path_exists demo_env ''photo.png''"
    "suffix_lower demo_env ''photo.png'' \<in> set image_suffixes"
    by (simp_all add: demo_env_def image_suffixes_def)
  have d: "displayable demo_env False ''photo.png''"
    by code_simp
  have "map_option closed (demo_run (?e1 @ ?e2)) = Some False"
    by code_simp
  then obtain s2 where "run_events demo_env ?s (?e1 @ ?e2) = Some s2"
    by (auto simp add: demo_run_def)
  with run_events_append [of demo_env ?s ?e1 ?e2]
  obtain s1 where s: "run_events demo_env ?s ?e1 = Some s1"
      "run_events demo_env s1 ?e2 = Some s2"
    by (auto split: option.splits)
  from pending_overwritten [OF r i(1) p(1) _ p(2) _ _ _ s]
  obtain s' where t: "step demo_env s2 AnimationFinished = Some s'"
    "pending_command s' = None" "current_file s' = Some ''photo.png''"
    "shown (trace s') = shown (trace ?s) @
       (if suffix_lower demo_env ''photo.png'' \<in> set image_suffixes
           \<longrightarrow> displayable demo_env False ''photo.png'' then [''photo.png''] else [])"
    by auto
  from s t(1) run_events_append [of demo_env ?s ?e1 "?e2 @ [AnimationFinished]"]
    run_events_append [of demo_env s1 ?e2 "[AnimationFinished]"]
  have "demo_run [Command (play_command ''clip.mp4'' 5), AnimationTick 50,
                 Command (play_command ''photo.png'' 2), AnimationTick 100,
                 AnimationFinished] = Some s'"
    by (simp add: demo_run_def del: run_events.simps) simp
  with t(2,3,4) i(2) p(3) d show ?thesis by simp
qed

text \<open>
  Claim C2 as stated has \<open>B\<close> displayed and \<open>A\<close> never displayed whenever \<^verbatim>\<open>Play(B)\<close> arrives
  during the fade-out.  A \<^verbatim>\<open>PLAY\<close> of a file that does not exist returns before it touches
  the pending request: in the demo installation \<^verbatim>\<open>clip.mp4\<close> stays pending when
  \<^verbatim>\<open>missing.mp4\<close> is played during its fade-out, and is shown when the fade-out ends.
\<close>

theorem missing_file_keeps_pending:
  "map_option pending_command
      (demo_run [Command (play_command ''clip.mp4'' 5),
                 Command (play_command ''missing.mp4'' 5)])
     = Some (Some (PendingPlay ''clip.mp4'' 5 False))
   \<and> map_option (\<lambda>s. (pending_command s, current_file s, shown (trace s)))
      (demo_run [Command (play_command ''clip.mp4'' 5),
                 Command (play_command ''missing.mp4'' 5), AnimationFinished])
     = Some (None, Some ''clip.mp4'', [''clip.mp4''])"
  by code_simp

end
